theory Spec2Isabelle
  imports Main
begin

section \<open>Data model of the command schema\<close>

text \<open>
  The embedding follows \<^verbatim>\<open>app_command_parser.ts\<close>. JavaScript strings are modelled as
  \<^typ>\<open>string\<close>; an optional property is an \<^typ>\<open>'a option\<close>; an optional array that the
  code always reads as \<^verbatim>\<open>x || []\<close> (or tests with \<^verbatim>\<open>!x || !x.length\<close>) is a list.
  A field position is a natural number; the parser's own counter starts at 0 and only
  grows. \<open>FORM_CALL\<close> is \<^verbatim>\<open>AppCallTypes.FORM\<close>, renamed beside the response type
  \<open>FORM\<close>.
\<close>

datatype ParseState =
    Start | Command | EndCommand | CommandSeparator | StartParameter | ParameterSeparator
  | Flag1 | Flag | FlagValueSeparator | StartValue | NonspaceValue | QuotedValue | TickValue
  | EndValue | EndQuotedValue | EndTickedValue | Error

datatype AppFieldTypes = TEXT | BOOL | USER | CHANNEL | STATIC_SELECT | DYNAMIC_SELECT | MARKDOWN

datatype AppCallResponseTypes = OK | FORM | NAVIGATE | OtherResponseType string

datatype AppCallTypes = SUBMIT | LOOKUP | FORM_CALL

text \<open>
  A call descriptor is an object; only its presence and identity matter here. The second
  constructor is \<^verbatim>\<open>Function.prototype.call\<close>, which is what \<^verbatim>\<open>x.call\<close> reads when
  \<^verbatim>\<open>x\<close> is a function (see the section on plain objects).
\<close>

datatype AppCall = AppCall (path: string) | Function_prototype_call

record AppSelectOption =
  o_label :: string
  o_value :: string
  o_icon_data :: "string option"

datatype AppFieldValue = StringValue string | OptionValue AppSelectOption

record AppField =
  f_name :: string
  f_label :: "string option"
  f_type :: AppFieldTypes
  f_position :: "nat option"
  f_is_required :: bool
  f_value :: "AppFieldValue option"
  f_readonly :: bool
  f_options :: "AppSelectOption list"
  f_description :: "string option"
  f_hint :: "string option"

record AppForm =
  form_fields :: "AppField list"
  form_call :: "AppCall option"

datatype AppBinding = AppBinding
  (b_label: string)
  (b_description: "string option")
  (b_hint: "string option")
  (b_icon: "string option")
  (b_form: "AppForm option")
  (b_bindings: "AppBinding list")
  (b_app_id: string)
  (b_call: "AppCall option")

section \<open>Messages\<close>

text \<open>
  Every message goes through \<^verbatim>\<open>intl.formatMessage\<close>, an external collaborator. An error
  is therefore kept as the message descriptor (identifier and template values); the names
  are the last component of the identifiers \<^verbatim>\<open>apps.error.parser.*\<close>,
  \<^verbatim>\<open>apps.error.responses.*\<close> and \<^verbatim>\<open>apps.error.unknown\<close>.
\<close>

datatype FetchError =
    response_error string
  | unknown_error
  | unexpected_type AppCallResponseTypes
  | unknown_type AppCallResponseTypes

datatype ParserError =
    no_bindings
  | no_slash_start
  | unexpected_state ParseState
  | no_match string
  | form_error FetchError
  | no_argument_pos_x
  | unexpected_flag string
  | multiple_equal
  | unexpected_whitespace
  | missing_quote
  | empty_value
  | missing_tick
  | missing_field_value

section \<open>Strings\<close>

text \<open>
  \<^verbatim>\<open>toLowerCase\<close> on the ASCII letters; every other character is left as it is.
\<close>

fun lowerChar :: "char \<Rightarrow> char" where
  "lowerChar (Char b0 b1 b2 b3 b4 b5 b6 b7) =
     (let n = (of_char (Char b0 b1 b2 b3 b4 b5 b6 b7) :: nat)
      in if 65 \<le> n \<and> n \<le> 90 then Char b0 b1 b2 b3 b4 True b6 b7
         else Char b0 b1 b2 b3 b4 b5 b6 b7)"

definition toLowerCase :: "string \<Rightarrow> string" where
  "toLowerCase s = map lowerChar s"

text \<open>\<^verbatim>\<open>s.startsWith(p)\<close>.\<close>

definition startsWith :: "string \<Rightarrow> string \<Rightarrow> bool" where
  "startsWith s p = (take (length p) s = p)"

text \<open>
  The character read at the top of both scanning loops:
  \<^verbatim>\<open>let c = ''; if (this.i < this.command.length) c = this.command[this.i]\<close>.
  As in the source, a character is a string of length one and the end of the input is the
  empty string.
\<close>

definition charAt :: "string \<Rightarrow> nat \<Rightarrow> string" where
  "charAt s k = (if k < length s then [s ! k] else [])"

text \<open>The delimiters, by code: tab, double quote, backslash, backtick.\<close>

abbreviation TAB :: string where "TAB \<equiv> [CHR 0x09]"
abbreviation DQUOTE :: string where "DQUOTE \<equiv> [CHR 0x22]"
abbreviation BACKSLASH :: string where "BACKSLASH \<equiv> [CHR 0x5C]"
abbreviation BACKTICK :: string where "BACKTICK \<equiv> [CHR 0x60]"

section \<open>Plain objects used as maps\<close>

text \<open>
  \<^verbatim>\<open>ParsedCommand.values\<close> and \<^verbatim>\<open>AppCommandParser.forms\<close> are plain objects
  (\<^verbatim>\<open>= {}\<close>) indexed by a string. Their own entries are a map. A read
  \<^verbatim>\<open>obj[name]\<close> (and the test \<^verbatim>\<open>name in obj\<close>) follows the prototype chain: where
  there is no own entry and \<open>name\<close> names a member of \<^verbatim>\<open>Object.prototype\<close>, the read
  gives that member, a function (for \<^verbatim>\<open>__proto__\<close> the prototype object itself), which is
  neither \<^verbatim>\<open>undefined\<close> nor falsy. An assignment \<^verbatim>\<open>obj[name] = v\<close> creates or
  overwrites an own entry, except under the name \<^verbatim>\<open>__proto__\<close>, where the inherited
  setter runs instead: it ignores a string and creates no entry.
\<close>

definition objectPrototypeNames :: "string list" where
  "objectPrototypeNames =
     [''constructor'', ''__defineGetter__'', ''__defineSetter__'', ''hasOwnProperty'',
      ''__lookupGetter__'', ''__lookupSetter__'', ''isPrototypeOf'', ''propertyIsEnumerable'',
      ''toString'', ''valueOf'', ''__proto__'', ''toLocaleString'']"

text \<open>
  What a read of \<^verbatim>\<open>values[name]\<close> gives: a recorded string, or the member of
  \<^verbatim>\<open>Object.prototype\<close> of that name; \<^term>\<open>None\<close> is \<^verbatim>\<open>undefined\<close>.
\<close>

datatype JSValue = Text string | Member string

definition getProperty :: "(string \<rightharpoonup> string) \<Rightarrow> string \<Rightarrow> JSValue option" where
  "getProperty obj name =
     (case obj name of
        Some v \<Rightarrow> Some (Text v)
      | None \<Rightarrow> if name \<in> set objectPrototypeNames then Some (Member name) else None)"

text \<open>\<^verbatim>\<open>obj[name] = v\<close> for a string \<open>v\<close>.\<close>

definition setProperty :: "(string \<rightharpoonup> string) \<Rightarrow> string \<Rightarrow> string \<Rightarrow> (string \<rightharpoonup> string)" where
  "setProperty obj name v = (if name = ''__proto__'' then obj else obj(name \<mapsto> v))"

text \<open>
  Truthiness of what was read: \<^verbatim>\<open>undefined\<close> and the empty string are falsy, every
  other string and every member of \<^verbatim>\<open>Object.prototype\<close> is truthy.
\<close>

definition truthy :: "JSValue option \<Rightarrow> bool" where
  "truthy p = (case p of None \<Rightarrow> False | Some (Text v) \<Rightarrow> v \<noteq> [] | Some (Member m) \<Rightarrow> True)"

section \<open>ParsedCommand\<close>

record ParsedCommand =
  state :: ParseState
  command :: string
  i :: nat
  incomplete :: string
  incompleteStart :: nat
  binding :: "AppBinding option"
  form :: "AppForm option"
  field :: "AppField option"
  position :: nat
  "values" :: "string \<rightharpoonup> string"
  location :: string
  error :: "ParserError option"

text \<open>
  \<open>values\<close> holds the own entries of the object \<^verbatim>\<open>values\<close>; it is read with
  \<open>getProperty\<close> and written with \<open>setProperty\<close>. The constructor: the field
  initialisers of the class.
\<close>

definition new_ParsedCommand :: "string \<Rightarrow> ParsedCommand" where
  "new_ParsedCommand cmd =
     \<lparr> state = Start, command = cmd, i = 0, incomplete = [], incompleteStart = 0,
       binding = None, form = None, field = None, position = 0, values = Map.empty,
       location = [], error = None \<rparr>"

definition asError :: "ParserError \<Rightarrow> ParsedCommand \<Rightarrow> ParsedCommand" where
  "asError message ps = ps\<lparr> state := Error, error := Some message \<rparr>"

section \<open>The parser object, the store and the remote calls\<close>

record AutocompleteSuggestion =
  Complete :: string
  Suggestion :: string
  Description :: string
  Hint :: string
  IconData :: string

record UserProfile =
  u_id :: string
  u_username :: string

record Channel =
  c_id :: string
  c_name :: string
  c_display_name :: string
  c_team_id :: string

record AppContext =
  ctx_app_id :: string
  ctx_root_id :: "string option"
  ctx_channel_id :: "string option"
  ctx_team_id :: "string option"

text \<open>
  The values of a call request: the raw string, an option object, or the object
  \<^verbatim>\<open>{label: '', value: v}\<close> built for a dynamic select field from what was read.
\<close>

datatype AppCallValue = TextValue string | SelectValue AppSelectOption | LookupValue JSValue

text \<open>What \<^verbatim>\<open>createCallRequest\<close> builds, with the two properties set for a lookup.\<close>

record AppCallRequest =
  rq_call :: AppCall
  rq_context :: AppContext
  rq_values :: "string \<rightharpoonup> AppCallValue"
  rq_raw_command :: "string option"
  selected_field :: "string option"
  query :: "string option"

record AppCallResponse =
  r_type :: AppCallResponseTypes
  r_form :: "AppForm option"
  r_items :: "AppSelectOption list"

datatype DoAppCallResult =
    CallError "string option"
  | CallData AppCallResponse

text \<open>
  Everything imported from \<^verbatim>\<open>app_command_parser_dependencies\<close> that reads the store or
  goes to the server is a parameter, collected in one record. A selector or a fetch that
  finds nothing (or whose result carries \<^verbatim>\<open>error\<close>) is \<^term>\<open>None\<close>. The answer of
  \<^verbatim>\<open>doAppCall\<close> may depend on how many remote calls were dispatched before, so that a
  retry can be answered differently. \<^verbatim>\<open>getAppsBindings\<close> returns an array, as
  \<^verbatim>\<open>getCommandBindings\<close> declares. The selectors by name are handed what
  \<^verbatim>\<open>expandOptions\<close> read from \<^verbatim>\<open>values[f.name]\<close>; \<open>formatMember\<close> is how
  \<^verbatim>\<open>formatMessage\<close> prints a member of \<^verbatim>\<open>Object.prototype\<close> put into a message.
\<close>

record Store =
  getAppsBindings :: "AppBinding list"
  selectUser :: "string \<Rightarrow> UserProfile option"
  getUser :: "string \<Rightarrow> UserProfile option"
  selectChannel :: "string \<Rightarrow> Channel option"
  getChannel :: "string \<Rightarrow> Channel option"
  selectUserByUsername :: "JSValue \<Rightarrow> UserProfile option"
  getUserByUsername :: "JSValue \<Rightarrow> UserProfile option"
  selectChannelByName :: "JSValue \<Rightarrow> Channel option"
  getChannelByNameAndTeamName :: "string \<Rightarrow> JSValue \<Rightarrow> Channel option"
  getCurrentTeamName :: string
  getCurrentTeamId :: string
  doAppCall :: "nat \<Rightarrow> AppCallRequest \<Rightarrow> AppCallTypes \<Rightarrow> DoAppCallResult"
  getExecuteSuggestion :: "ParsedCommand \<Rightarrow> AutocompleteSuggestion option"
  EXECUTE_CURRENT_COMMAND_ITEM_ID :: string
  parserErrorMessage :: "ParserError option \<Rightarrow> string \<Rightarrow> nat \<Rightarrow> string"
  formatMember :: "string \<Rightarrow> string"

text \<open>
  The object's own state is \<open>forms\<close>, \<open>channelID\<close> and \<open>rootPostID\<close>. The two other
  fields only observe effects: the number of remote calls dispatched so far, and the
  bindings \<^verbatim>\<open>fetchForm\<close> was invoked for, in order.
\<close>

record AppCommandParser =
  forms :: "string \<rightharpoonup> AppForm"
  channelID :: string
  rootPostID :: "string option"
  dispatched :: nat
  fetchLog :: "AppBinding list"

definition new_AppCommandParser :: "string \<Rightarrow> string option \<Rightarrow> AppCommandParser" where
  "new_AppCommandParser chan root =
     \<lparr> forms = Map.empty, channelID = chan, rootPostID = root, dispatched = 0, fetchLog = [] \<rparr>"

definition getCommandBindings :: "Store \<Rightarrow> AppBinding list" where
  "getCommandBindings store = getAppsBindings store"

definition getAppContext :: "Store \<Rightarrow> AppCommandParser \<Rightarrow> string \<Rightarrow> AppContext" where
  "getAppContext store parser appID =
     (case selectChannel store (channelID parser) of
        None \<Rightarrow>
          \<lparr> ctx_app_id = appID, ctx_root_id = rootPostID parser,
            ctx_channel_id = None, ctx_team_id = None \<rparr>
      | Some channel \<Rightarrow>
          \<lparr> ctx_app_id = appID, ctx_root_id = rootPostID parser,
            ctx_channel_id = Some (c_id channel),
            ctx_team_id = Some (if c_team_id channel \<noteq> [] then c_team_id channel
                                else getCurrentTeamId store) \<rparr>)"

definition createCallRequest ::
  "AppCall \<Rightarrow> AppContext \<Rightarrow> (string \<rightharpoonup> AppCallValue) \<Rightarrow> string option \<Rightarrow> AppCallRequest" where
  "createCallRequest c ctx vals raw =
     \<lparr> rq_call = c, rq_context = ctx, rq_values = vals, rq_raw_command = raw,
       selected_field = None, query = None \<rparr>"

record FetchedForm =
  fr_form :: "AppForm option"
  fr_error :: "FetchError option"

definition fetchForm ::
  "Store \<Rightarrow> AppBinding \<Rightarrow> AppCommandParser \<Rightarrow> FetchedForm option \<times> AppCommandParser" where
  "fetchForm store b parser =
     (let parser1 = parser\<lparr> fetchLog := fetchLog parser @ [b] \<rparr> in
      case b_call b of
        None \<Rightarrow> (None, parser1)
      | Some c \<Rightarrow>
          (let payload = createCallRequest c (getAppContext store parser1 (b_app_id b))
                           Map.empty None;
               res = doAppCall store (dispatched parser1) payload FORM_CALL;
               parser2 = parser1\<lparr> dispatched := dispatched parser1 + 1 \<rparr>
           in case res of
                CallError e \<Rightarrow>
                  (Some \<lparr> fr_form = None,
                           fr_error = Some (case e of
                                              None \<Rightarrow> unknown_error
                                            | Some m \<Rightarrow> if m = [] then unknown_error
                                                        else response_error m) \<rparr>,
                   parser2)
              | CallData callResponse \<Rightarrow>
                  (case r_type callResponse of
                     FORM \<Rightarrow> (Some \<lparr> fr_form = r_form callResponse, fr_error = None \<rparr>, parser2)
                   | NAVIGATE \<Rightarrow>
                       (Some \<lparr> fr_form = None,
                                fr_error = Some (unexpected_type (r_type callResponse)) \<rparr>,
                        parser2)
                   | OK \<Rightarrow>
                       (Some \<lparr> fr_form = None,
                                fr_error = Some (unexpected_type (r_type callResponse)) \<rparr>,
                        parser2)
                   | OtherResponseType t \<Rightarrow>
                       (Some \<lparr> fr_form = None,
                                fr_error = Some (unknown_type (r_type callResponse)) \<rparr>,
                        parser2))))"

text \<open>
  \<^verbatim>\<open>this.forms[location]\<close> where the cache has no own entry and \<open>location\<close> names a
  member of \<^verbatim>\<open>Object.prototype\<close>: the member is truthy and is returned as the form. Read
  as a form it has no \<^verbatim>\<open>fields\<close>; a function has the property \<^verbatim>\<open>call\<close>, the
  prototype object (under \<^verbatim>\<open>__proto__\<close>) has not.
\<close>

definition inheritedForm :: "string \<Rightarrow> AppForm" where
  "inheritedForm name =
     \<lparr> form_fields = [],
       form_call = (if name = ''__proto__'' then None else Some Function_prototype_call) \<rparr>"

text \<open>
  \<^verbatim>\<open>getForm\<close>. The assignment \<^verbatim>\<open>this.forms[location] = fetched.form\<close> is reached only
  where the read before gave \<^verbatim>\<open>undefined\<close>, so never under an inherited name, and it
  creates an own entry.
\<close>

definition getForm ::
  "Store \<Rightarrow> string \<Rightarrow> AppBinding \<Rightarrow> AppCommandParser
     \<Rightarrow> FetchedForm option \<times> AppCommandParser" where
  "getForm store loc b parser =
     (case forms parser loc of
        Some frm \<Rightarrow> (Some \<lparr> fr_form = Some frm, fr_error = None \<rparr>, parser)
      | None \<Rightarrow>
          if loc \<in> set objectPrototypeNames
          then (Some \<lparr> fr_form = Some (inheritedForm loc), fr_error = None \<rparr>, parser)
          else
            (let (fetched, parser1) = fetchForm store b parser in
             case fetched of
               None \<Rightarrow> (fetched, parser1)
             | Some r \<Rightarrow>
                 (case fr_form r of
                    None \<Rightarrow> (fetched, parser1)
                  | Some frm \<Rightarrow> (fetched, parser1\<lparr> forms := (forms parser1)(loc \<mapsto> frm) \<rparr>))))"

section \<open>Phase A: matchBinding\<close>

text \<open>
  One iteration of the \<^verbatim>\<open>while (!done)\<close> loop is \<open>matchBinding_step\<close>, on the
  cursor and the local \<^verbatim>\<open>bindings\<close>. \<open>Failed\<close> is a \<^verbatim>\<open>return this.asError(...)\<close>
  from inside the loop, \<open>Finished\<close> an iteration that set \<^verbatim>\<open>done\<close>, \<open>Again\<close> any
  other. In \<open>CommandSeparator\<close> at the end of the input the code sets \<^verbatim>\<open>done\<close> and
  then still runs the inner \<^verbatim>\<open>switch\<close>, whose default branch resets the token and
  moves to \<open>Command\<close>.
\<close>

datatype MatchStep =
    Failed ParsedCommand
  | Finished ParsedCommand
  | Again "AppBinding list" ParsedCommand

definition matchBinding_step :: "bool \<Rightarrow> AppBinding list \<Rightarrow> ParsedCommand \<Rightarrow> MatchStep" where
  "matchBinding_step autocompleteMode bnds ps =
     (let c = charAt (command ps) (i ps) in
      case state ps of
        Start \<Rightarrow>
          (if c \<noteq> ''/''
           then Failed (asError no_slash_start ps)
           else Again bnds
                  (ps\<lparr> i := i ps + 1, incomplete := [], incompleteStart := i ps + 1,
                       state := Command \<rparr>))
      | Command \<Rightarrow>
          (if c = [] then
             (if autocompleteMode then Finished ps
              else Again bnds (ps\<lparr> state := EndCommand \<rparr>))
           else if c = '' '' \<or> c = TAB then Again bnds (ps\<lparr> state := EndCommand \<rparr>)
           else Again bnds (ps\<lparr> incomplete := incomplete ps @ c, i := i ps + 1 \<rparr>))
      | EndCommand \<Rightarrow>
          (case find (\<lambda>b. toLowerCase (b_label b) = toLowerCase (incomplete ps)) bnds of
             None \<Rightarrow> Finished ps
           | Some b \<Rightarrow>
               Again (b_bindings b)
                 (ps\<lparr> binding := Some b, location := location ps @ ''/'' @ b_label b,
                      state := CommandSeparator \<rparr>))
      | CommandSeparator \<Rightarrow>
          (if c = [] then
             Finished (ps\<lparr> incomplete := [], incompleteStart := i ps, state := Command \<rparr>)
           else if c = '' '' \<or> c = TAB then Again bnds (ps\<lparr> i := i ps + 1 \<rparr>)
           else Again bnds (ps\<lparr> incomplete := [], incompleteStart := i ps, state := Command \<rparr>))
      | _ \<Rightarrow> Failed (asError (unexpected_state (state ps)) ps))"

text \<open>
  The loop: \<open>Inl\<close> is the early return with an error, \<open>Inr\<close> the loop left through
  \<^verbatim>\<open>done\<close>. The measure counts the input left, and within one index the states still
  to pass, which depend on whether the character ends a token.
\<close>

function matchBinding_loop ::
  "bool \<Rightarrow> AppBinding list \<Rightarrow> ParsedCommand \<Rightarrow> ParsedCommand + ParsedCommand" where
  "matchBinding_loop autocompleteMode bnds ps =
     (case matchBinding_step autocompleteMode bnds ps of
        Failed failed \<Rightarrow> Inl failed
      | Finished ps1 \<Rightarrow> Inr ps1
      | Again bnds1 ps1 \<Rightarrow> matchBinding_loop autocompleteMode bnds1 ps1)"
  by pat_completeness auto

definition matchMeasure :: "ParsedCommand \<Rightarrow> nat" where
  "matchMeasure ps =
     3 * (length (command ps) - i ps) +
     (let c = charAt (command ps) (i ps);
          endOfToken = (c = [] \<or> c = '' '' \<or> c = TAB)
      in case state ps of
           Start \<Rightarrow> 0
         | Command \<Rightarrow> if endOfToken then 2 else 0
         | EndCommand \<Rightarrow> if endOfToken then 1 else 2
         | CommandSeparator \<Rightarrow> if endOfToken then 0 else 1
         | _ \<Rightarrow> 0)"

text \<open>The method itself; the form comes from the binding or from \<^verbatim>\<open>formsCache.getForm\<close>.\<close>

definition matchBinding ::
  "Store \<Rightarrow> AppBinding list \<Rightarrow> bool \<Rightarrow> ParsedCommand \<Rightarrow> AppCommandParser
     \<Rightarrow> ParsedCommand \<times> AppCommandParser" where
  "matchBinding store commandBindings autocompleteMode ps parser =
     (if commandBindings = [] then (asError no_bindings ps, parser)
      else case matchBinding_loop autocompleteMode commandBindings ps of
             Inl failed \<Rightarrow> (failed, parser)
           | Inr ps1 \<Rightarrow>
               (case binding ps1 of
                  None \<Rightarrow> (asError (no_match (command ps1)) ps1, parser)
                | Some b \<Rightarrow>
                    (case b_form b of
                       Some frm \<Rightarrow> (ps1\<lparr> form := Some frm \<rparr>, parser)
                     | None \<Rightarrow>
                         (let (fetched, parser1) = getForm store (location ps1) b parser in
                          case fetched of
                            None \<Rightarrow> (ps1\<lparr> form := None \<rparr>, parser1)
                          | Some r \<Rightarrow>
                              (case fr_error r of
                                 Some e \<Rightarrow> (asError (form_error e) (ps1\<lparr> form := None \<rparr>), parser1)
                               | None \<Rightarrow> (ps1\<lparr> form := fr_form r \<rparr>, parser1))))))"

section \<open>Phase B: parseForm\<close>

text \<open>
  One iteration of the \<^verbatim>\<open>while (true)\<close> loop is \<open>parseForm_step\<close>. The locals
  \<^verbatim>\<open>flagEqualsUsed\<close> and \<^verbatim>\<open>escaped\<close> travel with the cursor. \<open>Return\<close> is a
  \<^verbatim>\<open>return\<close> statement, \<open>Next\<close> a \<^verbatim>\<open>break\<close> out of the \<^verbatim>\<open>switch\<close> into the
  next iteration. The \<^verbatim>\<open>switch\<close> has no default branch: in a state it does not list,
  nothing changes and the loop spins (\<open>NoCase\<close>).
\<close>

datatype Step = Return ParsedCommand | Next bool bool ParsedCommand | NoCase

text \<open>
  The shared body of \<^verbatim>\<open>case EndTickedValue: case EndQuotedValue: case EndValue:\<close>,
  with the special handling of optional boolean values. The two assignments
  \<^verbatim>\<open>this.values![this.field.name] = ...\<close> write a string into the plain object.
\<close>

definition parseForm_endValue :: "bool \<Rightarrow> bool \<Rightarrow> bool \<Rightarrow> string \<Rightarrow> ParsedCommand \<Rightarrow> Step" where
  "parseForm_endValue autocompleteMode flagEqualsUsed escaped c ps =
     (case field ps of
        None \<Rightarrow> Return (asError missing_field_value ps)
      | Some f \<Rightarrow>
          if f_type f = BOOL \<and>
             ((autocompleteMode \<and> \<not> startsWith ''true'' (incomplete ps)
                 \<and> \<not> startsWith ''false'' (incomplete ps)) \<or>
              (\<not> autocompleteMode \<and> incomplete ps \<noteq> ''true'' \<and> incomplete ps \<noteq> ''false''))
          then Next flagEqualsUsed escaped
                 (ps\<lparr> i := incompleteStart ps,
                      values := setProperty (values ps) (f_name f) ''true'',
                      state := StartParameter \<rparr>)
          else if autocompleteMode \<and> c = [] then Return ps
          else (let ps1 = ps\<lparr> values := setProperty (values ps) (f_name f) (incomplete ps),
                                incomplete := [], incompleteStart := i ps \<rparr>
                in if c = [] then Return ps1
                   else Next flagEqualsUsed escaped (ps1\<lparr> state := ParameterSeparator \<rparr>)))"

definition parseForm_step ::
  "bool \<Rightarrow> AppField list \<Rightarrow> bool \<Rightarrow> bool \<Rightarrow> ParsedCommand \<Rightarrow> Step" where
  "parseForm_step autocompleteMode flds flagEqualsUsed escaped ps =
     (let c = charAt (command ps) (i ps) in
      case state ps of
        StartParameter \<Rightarrow>
          (if c = [] then Return ps
           else if c = ''-'' then
             Next flagEqualsUsed escaped (ps\<lparr> state := Flag1, i := i ps + 1 \<rparr>)
           else
             (let ps1 = ps\<lparr> position := position ps + 1 \<rparr> in
              case find (\<lambda>f. f_position f = Some (position ps1)) flds of
                None \<Rightarrow> Return (asError no_argument_pos_x ps1)
              | Some f \<Rightarrow>
                  Next flagEqualsUsed escaped (ps1\<lparr> field := Some f, state := StartValue \<rparr>)))
      | ParameterSeparator \<Rightarrow>
          (let ps1 = ps\<lparr> incompleteStart := i ps \<rparr> in
           if c = [] then Return (ps1\<lparr> state := StartParameter \<rparr>)
           else if c = '' '' \<or> c = TAB then
             Next flagEqualsUsed escaped (ps1\<lparr> i := i ps1 + 1 \<rparr>)
           else Next flagEqualsUsed escaped (ps1\<lparr> state := StartParameter \<rparr>))
      | Flag1 \<Rightarrow>
          (let ps1 = (if c = ''-'' then ps\<lparr> i := i ps + 1 \<rparr> else ps) in
           Next False escaped
             (ps1\<lparr> state := Flag, incomplete := [], incompleteStart := i ps1 \<rparr>))
      | Flag \<Rightarrow>
          (if c = [] \<and> autocompleteMode then Return ps
           else if c = [] \<or> c = '' '' \<or> c = TAB \<or> c = ''='' then
             (case find (\<lambda>f. map_option toLowerCase (f_label f)
                                = Some (toLowerCase (incomplete ps))) flds of
                None \<Rightarrow> Return (asError (unexpected_flag (incomplete ps)) ps)
              | Some f \<Rightarrow>
                  Next flagEqualsUsed escaped
                    (ps\<lparr> state := FlagValueSeparator, field := Some f, incomplete := [] \<rparr>))
           else
             Next flagEqualsUsed escaped
               (ps\<lparr> incomplete := incomplete ps @ c, i := i ps + 1 \<rparr>))
      | FlagValueSeparator \<Rightarrow>
          (let ps1 = ps\<lparr> incompleteStart := i ps \<rparr> in
           if c = [] then
             (if autocompleteMode then Return ps1
              else Next flagEqualsUsed escaped (ps1\<lparr> state := StartValue \<rparr>))
           else if c = '' '' \<or> c = TAB then
             Next flagEqualsUsed escaped (ps1\<lparr> i := i ps1 + 1 \<rparr>)
           else if c = ''='' then
             (if flagEqualsUsed then Return (asError multiple_equal ps1)
              else Next True escaped (ps1\<lparr> i := i ps1 + 1 \<rparr>))
           else Next flagEqualsUsed escaped (ps1\<lparr> state := StartValue \<rparr>))
      | StartValue \<Rightarrow>
          (let ps1 = ps\<lparr> incomplete := [], incompleteStart := i ps \<rparr> in
           if c = DQUOTE then
             Next flagEqualsUsed escaped (ps1\<lparr> state := QuotedValue, i := i ps1 + 1 \<rparr>)
           else if c = BACKTICK then
             Next flagEqualsUsed escaped (ps1\<lparr> state := TickValue, i := i ps1 + 1 \<rparr>)
           else if c = '' '' \<or> c = TAB then Return (asError unexpected_whitespace ps1)
           else Next flagEqualsUsed escaped (ps1\<lparr> state := NonspaceValue \<rparr>))
      | NonspaceValue \<Rightarrow>
          (if c = [] \<or> c = '' '' \<or> c = TAB then
             Next flagEqualsUsed escaped (ps\<lparr> state := EndValue \<rparr>)
           else
             Next flagEqualsUsed escaped
               (ps\<lparr> incomplete := incomplete ps @ c, i := i ps + 1 \<rparr>))
      | QuotedValue \<Rightarrow>
          (if c = [] then
             (if \<not> autocompleteMode then Return (asError missing_quote ps) else Return ps)
           else if c = DQUOTE then
             (if incompleteStart ps + 1 = i ps then Return (asError empty_value ps)
              else Next flagEqualsUsed escaped (ps\<lparr> i := i ps + 1, state := EndQuotedValue \<rparr>))
           else if c = BACKSLASH then
             Next flagEqualsUsed True (ps\<lparr> i := i ps + 1 \<rparr>)
           else
             Next flagEqualsUsed (if escaped then False else escaped)
               (ps\<lparr> incomplete := incomplete ps @ c, i := i ps + 1 \<rparr>))
      | TickValue \<Rightarrow>
          (if c = [] then
             (if \<not> autocompleteMode then Return (asError missing_tick ps) else Return ps)
           else if c = BACKTICK then
             (if incompleteStart ps + 1 = i ps then Return (asError empty_value ps)
              else Next flagEqualsUsed escaped (ps\<lparr> i := i ps + 1, state := EndTickedValue \<rparr>))
           else
             Next flagEqualsUsed escaped
               (ps\<lparr> incomplete := incomplete ps @ c, i := i ps + 1 \<rparr>))
      | EndTickedValue \<Rightarrow> parseForm_endValue autocompleteMode flagEqualsUsed escaped c ps
      | EndQuotedValue \<Rightarrow> parseForm_endValue autocompleteMode flagEqualsUsed escaped c ps
      | EndValue \<Rightarrow> parseForm_endValue autocompleteMode flagEqualsUsed escaped c ps
      | _ \<Rightarrow> NoCase)"

text \<open>
  The loop. It returns \<^term>\<open>None\<close> where the source would spin forever. The cursor can
  move backwards (the boolean case resets it to the start of the token), so the measure
  is lexicographic: the distance from the start of the current parameter to the end of the
  input, then the positional fields still to be tried, then the progress inside the
  parameter.
\<close>

function parseForm_loop ::
  "bool \<Rightarrow> AppField list \<Rightarrow> bool \<Rightarrow> bool \<Rightarrow> ParsedCommand \<Rightarrow> ParsedCommand option" where
  "parseForm_loop autocompleteMode flds flagEqualsUsed escaped ps =
     (case parseForm_step autocompleteMode flds flagEqualsUsed escaped ps of
        Return r \<Rightarrow> Some r
      | Next flagEqualsUsed1 escaped1 ps1 \<Rightarrow>
          parseForm_loop autocompleteMode flds flagEqualsUsed1 escaped1 ps1
      | NoCase \<Rightarrow> None)"
  by pat_completeness auto

text \<open>
  The components of the measure: the start of the current parameter (the index a reset can
  return to), the positional fields left, and the progress inside the parameter.
\<close>

definition parameterStart :: "ParsedCommand \<Rightarrow> nat" where
  "parameterStart ps =
     (if state ps \<in> {NonspaceValue, QuotedValue, TickValue, EndValue, EndQuotedValue,
                       EndTickedValue}
      then min (i ps) (incompleteStart ps) else i ps)"

definition stateRank :: "ParseState \<Rightarrow> nat" where
  "stateRank st =
     (case st of
        Flag1 \<Rightarrow> 8 | Flag \<Rightarrow> 7 | FlagValueSeparator \<Rightarrow> 6 | StartValue \<Rightarrow> 5
      | NonspaceValue \<Rightarrow> 4 | QuotedValue \<Rightarrow> 4 | TickValue \<Rightarrow> 4
      | EndValue \<Rightarrow> 3 | EndQuotedValue \<Rightarrow> 3 | EndTickedValue \<Rightarrow> 3
      | ParameterSeparator \<Rightarrow> 2 | _ \<Rightarrow> 1)"

definition inputLeft :: "ParsedCommand \<Rightarrow> nat" where
  "inputLeft ps = length (command ps) - parameterStart ps"

definition positionsLeft :: "AppField list \<Rightarrow> ParsedCommand \<Rightarrow> nat" where
  "positionsLeft flds ps =
     (sum_list (map (\<lambda>f. case f_position f of None \<Rightarrow> 0 | Some p \<Rightarrow> p) flds) + 1)
       - position ps"

definition parameterLeft :: "ParsedCommand \<Rightarrow> nat" where
  "parameterLeft ps =
     (if state ps = StartParameter then 0
      else 10 * (length (command ps) - i ps) + stateRank (state ps))"

definition stepDecreases :: "AppField list \<Rightarrow> ParsedCommand \<Rightarrow> ParsedCommand \<Rightarrow> bool" where
  "stepDecreases flds ps1 ps \<longleftrightarrow>
     inputLeft ps1 < inputLeft ps \<or>
     (inputLeft ps1 = inputLeft ps \<and>
        (positionsLeft flds ps1 < positionsLeft flds ps \<or>
         (positionsLeft flds ps1 = positionsLeft flds ps \<and> parameterLeft ps1 < parameterLeft ps)))"

text \<open>The method: the guard, the field filter, the cursor reset, then the loop.\<close>

definition parseForm :: "bool \<Rightarrow> ParsedCommand \<Rightarrow> ParsedCommand option" where
  "parseForm autocompleteMode ps =
     (if state ps = Error then Some ps
      else case form ps of
             None \<Rightarrow> Some ps
           | Some frm \<Rightarrow>
               parseForm_loop autocompleteMode
                 (filter (\<lambda>f. f_type f \<noteq> MARKDOWN \<and> \<not> f_readonly f) (form_fields frm))
                 False False
                 (ps\<lparr> state := StartParameter, i := incompleteStart ps \<rparr>))"

text \<open>The states the \<^verbatim>\<open>switch\<close> of parseForm has a case for.\<close>

definition parseFormState :: "ParseState \<Rightarrow> bool" where
  "parseFormState st \<longleftrightarrow>
     st \<in> {StartParameter, ParameterSeparator, Flag1, Flag, FlagValueSeparator, StartValue,
           NonspaceValue, QuotedValue, TickValue, EndValue, EndQuotedValue, EndTickedValue}"

text \<open>The unquoted token at the cursor: the characters up to the next space or tab.\<close>

definition valueToken :: "ParsedCommand \<Rightarrow> string" where
  "valueToken ps = takeWhile (\<lambda>ch. ch \<noteq> CHR '' '' \<and> ch \<noteq> CHR 0x09) (drop (i ps) (command ps))"

section \<open>The orchestrator: composing a call\<close>

text \<open>\<^verbatim>\<open>x || ''\<close> and \<^verbatim>\<open>x || y\<close> on optional strings, and \<^verbatim>\<open>xs.join(sep)\<close>.\<close>

definition orEmpty :: "string option \<Rightarrow> string" where
  "orEmpty x = (case x of None \<Rightarrow> [] | Some v \<Rightarrow> v)"

definition orElse :: "string option \<Rightarrow> string \<Rightarrow> string" where
  "orElse x y = (case x of None \<Rightarrow> y | Some v \<Rightarrow> if v = [] then y else v)"

fun join :: "string \<Rightarrow> string list \<Rightarrow> string" where
  "join sep [] = []"
| "join sep [x] = x"
| "join sep (x # y # ys) = x @ sep @ join sep (y # ys)"

text \<open>
  \<^verbatim>\<open>getMissingFields\<close>: the test \<^verbatim>\<open>!values[field.name]\<close> reads the plain object, so
  it fails for a recorded non-empty string and for every name inherited from
  \<^verbatim>\<open>Object.prototype\<close>.
\<close>

definition getMissingFields :: "ParsedCommand \<Rightarrow> AppField list" where
  "getMissingFields parsed =
     (case form parsed of
        None \<Rightarrow> []
      | Some frm \<Rightarrow>
          filter (\<lambda>fld. f_is_required fld \<and> \<not> truthy (getProperty (values parsed) (f_name fld)))
            (form_fields frm))"

text \<open>
  \<^verbatim>\<open>addDefaultAndReadOnlyValues\<close> runs one callback per field under \<^verbatim>\<open>Promise.all\<close>;
  the model runs them in field order. The casts \<^verbatim>\<open>f.value as string\<close> and
  \<^verbatim>\<open>f.value as AppSelectOption\<close> are taken at their word: a value of the other variant
  is outside the declared types, and the model leaves the field unset there. The guard
  \<^verbatim>\<open>f.name in parsed.values\<close> holds for an own entry and for an inherited name.
\<close>

definition addDefaultValue :: "Store \<Rightarrow> AppField \<Rightarrow> (string \<rightharpoonup> string) \<Rightarrow> (string \<rightharpoonup> string)" where
  "addDefaultValue store f vals =
     (case f_value f of
        None \<Rightarrow> vals
      | Some fv \<Rightarrow>
          if fv = StringValue [] then vals
          else if \<not> f_readonly f \<or> getProperty vals (f_name f) \<noteq> None then vals
          else
            (case f_type f of
               TEXT \<Rightarrow>
                 (case fv of
                    StringValue v \<Rightarrow> setProperty vals (f_name f) v
                  | OptionValue _ \<Rightarrow> vals)
             | BOOL \<Rightarrow> setProperty vals (f_name f) ''true''
             | USER \<Rightarrow>
                 (case fv of
                    StringValue _ \<Rightarrow> vals
                  | OptionValue opt \<Rightarrow>
                      (case selectUser store (o_value opt) of
                         Some user \<Rightarrow> setProperty vals (f_name f) (u_username user)
                       | None \<Rightarrow>
                           (case getUser store (o_value opt) of
                              None \<Rightarrow> vals
                            | Some user \<Rightarrow> setProperty vals (f_name f) (u_username user))))
             | CHANNEL \<Rightarrow>
                 (case fv of
                    StringValue _ \<Rightarrow> vals
                  | OptionValue opt \<Rightarrow>
                      (case selectChannel store (o_label opt) of
                         Some channel \<Rightarrow> setProperty vals (f_name f) (c_name channel)
                       | None \<Rightarrow>
                           (case getChannel store (o_label opt) of
                              None \<Rightarrow> vals
                            | Some channel \<Rightarrow> setProperty vals (f_name f) (c_name channel))))
             | STATIC_SELECT \<Rightarrow>
                 (case fv of
                    StringValue _ \<Rightarrow> vals
                  | OptionValue opt \<Rightarrow> setProperty vals (f_name f) (o_value opt))
             | DYNAMIC_SELECT \<Rightarrow>
                 (case fv of
                    StringValue _ \<Rightarrow> vals
                  | OptionValue opt \<Rightarrow> setProperty vals (f_name f) (o_value opt))
             | MARKDOWN \<Rightarrow> vals))"

definition addDefaultAndReadOnlyValues :: "Store \<Rightarrow> ParsedCommand \<Rightarrow> ParsedCommand" where
  "addDefaultAndReadOnlyValues store parsed =
     (case form parsed of
        None \<Rightarrow> parsed
      | Some frm \<Rightarrow>
          parsed\<lparr> values := fold (addDefaultValue store) (form_fields frm) (values parsed) \<rparr>)"

text \<open>
  \<^verbatim>\<open>expandOptions\<close>: the raw strings become typed values, the per-field errors are
  collected under the field name and joined with a newline after each. The fields are taken
  in order; each reads what \<^verbatim>\<open>values[f.name]\<close> gave before the expansion, a recorded
  string or an inherited member. The expanded own entries are returned beside the parsed
  command (the source writes them over \<^verbatim>\<open>parsed.values\<close>; an entry is replaced only
  where the read was truthy, by an object, so no later truthiness test of
  \<^verbatim>\<open>parsed.values\<close> changes). \<^verbatim>\<open>errors\<close> is a plain object too: a message assigned
  under \<^verbatim>\<open>__proto__\<close> is dropped. An object assigned to \<^verbatim>\<open>values\<close> under
  \<^verbatim>\<open>__proto__\<close> becomes the prototype and creates no own entry; the model does not
  follow the replaced prototype in later reads, and it keeps the error messages in the
  order they were first set (the engine lists names that are array indices first).
\<close>

fun setKey :: "string \<Rightarrow> string \<Rightarrow> (string \<times> string) list \<Rightarrow> (string \<times> string) list" where
  "setKey k v [] = [(k, v)]"
| "setKey k v ((k1, v1) # kvs) = (if k1 = k then (k, v) # kvs else (k1, v1) # setKey k v kvs)"

definition setError :: "string \<Rightarrow> string \<Rightarrow> (string \<times> string) list \<Rightarrow> (string \<times> string) list" where
  "setError k v errors = (if k = ''__proto__'' then errors else setKey k v errors)"

definition setExpanded ::
  "(string \<rightharpoonup> AppCallValue) \<Rightarrow> string \<Rightarrow> AppCallValue \<Rightarrow> (string \<rightharpoonup> AppCallValue)" where
  "setExpanded vals name v = (if name = ''__proto__'' then vals else vals(name \<mapsto> v))"

text \<open>
  \<^verbatim>\<open>if (userName[0] === '@') userName = userName.substr(1)\<close>, and the value as it is
  printed in an error message.
\<close>

definition stripSigil :: "string \<Rightarrow> JSValue \<Rightarrow> JSValue" where
  "stripSigil sigil x =
     (case x of
        Text v \<Rightarrow> if take 1 v = sigil then Text (drop 1 v) else Text v
      | Member m \<Rightarrow> Member m)"

definition optionText :: "Store \<Rightarrow> JSValue \<Rightarrow> string" where
  "optionText store x = (case x of Text v \<Rightarrow> v | Member m \<Rightarrow> formatMember store m)"

definition expandOption ::
  "Store \<Rightarrow> (string \<rightharpoonup> string) \<Rightarrow> AppField
     \<Rightarrow> (string \<rightharpoonup> AppCallValue) \<times> (string \<times> string) list
     \<Rightarrow> (string \<rightharpoonup> AppCallValue) \<times> (string \<times> string) list" where
  "expandOption store raw f acc =
     (let (vals, errors) = acc in
      case getProperty raw (f_name f) of
        None \<Rightarrow> acc
      | Some x \<Rightarrow>
          if \<not> truthy (Some x) then acc
          else
            (case f_type f of
               DYNAMIC_SELECT \<Rightarrow> (setExpanded vals (f_name f) (LookupValue x), errors)
             | STATIC_SELECT \<Rightarrow>
                 (case find (\<lambda>opt. Text (o_value opt) = x) (f_options f) of
                    None \<Rightarrow>
                      (vals,
                       setError (f_name f)
                         (''Unknown option for field `'' @ f_name f @ ''`: `''
                            @ optionText store x @ ''`.'') errors)
                  | Some opt \<Rightarrow> (setExpanded vals (f_name f) (SelectValue opt), errors))
             | USER \<Rightarrow>
                 (let userName = stripSigil ''@'' x;
                      found = (case selectUserByUsername store userName of
                                 Some user \<Rightarrow> Some user
                               | None \<Rightarrow> getUserByUsername store userName)
                  in case found of
                       None \<Rightarrow>
                         (vals,
                          setError (f_name f)
                            (''Unknown user for field `'' @ f_name f @ ''`: `''
                               @ optionText store x @ ''`.'') errors)
                     | Some user \<Rightarrow>
                         (setExpanded vals (f_name f)
                            (SelectValue \<lparr> o_label = u_username user, o_value = u_id user,
                                           o_icon_data = None \<rparr>),
                          errors))
             | CHANNEL \<Rightarrow>
                 (let channelName = stripSigil ''~'' x;
                      found = (case selectChannelByName store channelName of
                                 Some channel \<Rightarrow> Some channel
                               | None \<Rightarrow>
                                   getChannelByNameAndTeamName store (getCurrentTeamName store)
                                     channelName)
                  in case found of
                       None \<Rightarrow>
                         (vals,
                          setError (f_name f)
                            (''Unknown channel for field `'' @ f_name f @ ''`: `''
                               @ optionText store x @ ''`.'') errors)
                     | Some channel \<Rightarrow>
                         (setExpanded vals (f_name f)
                            (SelectValue \<lparr> o_label = c_display_name channel,
                                           o_value = c_id channel, o_icon_data = None \<rparr>),
                          errors))
             | _ \<Rightarrow> acc))"

definition expandOptions ::
  "Store \<Rightarrow> ParsedCommand \<Rightarrow> (string \<rightharpoonup> AppCallValue) \<times> string option" where
  "expandOptions store parsed =
     (let raw = values parsed; start = (\<lambda>k. map_option TextValue (raw k)) in
      case form parsed of
        None \<Rightarrow> (start, None)
      | Some frm \<Rightarrow>
          (let (vals, errors) = fold (expandOption store raw) (form_fields frm) (start, [])
           in if errors = [] then (vals, None)
              else (vals, Some (concat (map (\<lambda>(k, m). m @ [CHR 0x0A]) errors)))))"

record CallResult =
  call :: "AppCallRequest option"
  errorMessage :: "string option"

definition composeCallFromParsed ::
  "Store \<Rightarrow> AppCommandParser \<Rightarrow> ParsedCommand \<Rightarrow> CallResult" where
  "composeCallFromParsed store parser parsed =
     (case binding parsed of
        None \<Rightarrow> \<lparr> call = None, errorMessage = Some ''Missing command bindings.'' \<rparr>
      | Some b \<Rightarrow>
          (case (case Option.bind (form parsed) form_call of
                   Some c \<Rightarrow> Some c | None \<Rightarrow> b_call b) of
             None \<Rightarrow> \<lparr> call = None, errorMessage = Some ''Missing binding call.'' \<rparr>
           | Some c \<Rightarrow>
               (let (vals, err) = expandOptions store parsed in
                case err of
                  Some m \<Rightarrow> \<lparr> call = None, errorMessage = Some m \<rparr>
                | None \<Rightarrow>
                    \<lparr> call = Some (createCallRequest c (getAppContext store parser (b_app_id b))
                                     vals (Some (command parsed))),
                      errorMessage = None \<rparr>)))"

text \<open>
  \<^verbatim>\<open>composeCallFromCommand\<close>. The guard \<^verbatim>\<open>if (!commandBindings)\<close> never fires on an
  array and has no branch here. The result is \<^term>\<open>None\<close> only if parseForm did not
  return.
\<close>

definition composeCallFromCommand ::
  "Store \<Rightarrow> AppCommandParser \<Rightarrow> string \<Rightarrow> (CallResult \<times> AppCommandParser) option" where
  "composeCallFromCommand store parser cmd =
     (let (parsed1, parser1) =
            matchBinding store (getCommandBindings store) False (new_ParsedCommand cmd) parser
      in case parseForm False parsed1 of
           None \<Rightarrow> None
         | Some parsed2 \<Rightarrow>
             if state parsed2 = Error then
               Some (\<lparr> call = None,
                        errorMessage =
                          Some (parserErrorMessage store (error parsed2) (command parsed2)
                                  (i parsed2)) \<rparr>,
                     parser1)
             else
               (let parsed3 = addDefaultAndReadOnlyValues store parsed2;
                    missing = getMissingFields parsed3
                in if length missing > 0 then
                     Some (\<lparr> call = None,
                              errorMessage =
                                Some (''Required fields missing: `''
                                        @ join '', '' (map (\<lambda>fld. orEmpty (f_label fld)) missing)
                                        @ ''`.'') \<rparr>,
                           parser1)
                   else Some (composeCallFromParsed store parser1 parsed3, parser1)))"

section \<open>The orchestrator: suggestions\<close>

text \<open>
  The texts shown to the user are the default messages of the \<^verbatim>\<open>formatMessage\<close> calls.
  The response type names are those of the \<^verbatim>\<open>AppCallResponseTypes\<close> constants.
\<close>

definition stateName :: "ParseState \<Rightarrow> string" where
  "stateName st =
     (case st of
        Start \<Rightarrow> ''Start'' | Command \<Rightarrow> ''Command'' | EndCommand \<Rightarrow> ''EndCommand''
      | CommandSeparator \<Rightarrow> ''CommandSeparator'' | StartParameter \<Rightarrow> ''StartParameter''
      | ParameterSeparator \<Rightarrow> ''ParameterSeparator'' | Flag1 \<Rightarrow> ''Flag1'' | Flag \<Rightarrow> ''Flag''
      | FlagValueSeparator \<Rightarrow> ''FlagValueSeparator'' | StartValue \<Rightarrow> ''StartValue''
      | NonspaceValue \<Rightarrow> ''NonspaceValue'' | QuotedValue \<Rightarrow> ''QuotedValue''
      | TickValue \<Rightarrow> ''TickValue'' | EndValue \<Rightarrow> ''EndValue''
      | EndQuotedValue \<Rightarrow> ''EndQuotedValue'' | EndTickedValue \<Rightarrow> ''EndTickedValue''
      | Error \<Rightarrow> ''Error'')"

definition responseTypeName :: "AppCallResponseTypes \<Rightarrow> string" where
  "responseTypeName t =
     (case t of OK \<Rightarrow> ''ok'' | FORM \<Rightarrow> ''form'' | NAVIGATE \<Rightarrow> ''navigate''
              | OtherResponseType n \<Rightarrow> n)"

definition fetchErrorText :: "FetchError \<Rightarrow> string" where
  "fetchErrorText e =
     (case e of
        response_error m \<Rightarrow> m
      | unknown_error \<Rightarrow> ''Unknown error.''
      | unexpected_type t \<Rightarrow>
          ''App response type was not expected. Response type: '' @ responseTypeName t
      | unknown_type t \<Rightarrow>
          ''App response type not supported. Response type: '' @ responseTypeName t @ ''.'')"

definition errorText :: "ParserError \<Rightarrow> string" where
  "errorText e =
     (case e of
        no_bindings \<Rightarrow> ''No command bindings.''
      | no_slash_start \<Rightarrow> ''Command must start with a `/`.''
      | unexpected_state st \<Rightarrow>
          ''Unreachable: Unexpected state in matchBinding: `'' @ stateName st @ ''`.''
      | no_match cmd \<Rightarrow> ''`'' @ cmd @ ''`: No matching command found in this workspace.''
      | form_error fe \<Rightarrow> fetchErrorText fe
      | no_argument_pos_x \<Rightarrow> ''Unable to identify argument.''
      | unexpected_flag flagName \<Rightarrow> ''Command does not accept flag `'' @ flagName @ ''`.''
      | multiple_equal \<Rightarrow> ''Multiple `=` signs are not allowed.''
      | unexpected_whitespace \<Rightarrow> ''Unreachable: Unexpected whitespace.''
      | missing_quote \<Rightarrow> ''Matching double quote expected before end of input.''
      | empty_value \<Rightarrow> ''empty values are not allowed''
      | missing_tick \<Rightarrow> ''Matching tick quote expected before end of input.''
      | missing_field_value \<Rightarrow> ''Field value is missing.'')"

definition endsWith :: "string \<Rightarrow> string \<Rightarrow> bool" where
  "endsWith s suffix =
     (length suffix \<le> length s \<and> drop (length s - length suffix) s = suffix)"

definition isMultiword :: "string \<Rightarrow> bool" where
  "isMultiword v = (CHR '' '' \<in> set v \<or> CHR 0x09 \<in> set v)"

text \<open>\<^verbatim>\<open>s.trim().length === 0\<close>, on the ASCII white space.\<close>

definition trimIsEmpty :: "string \<Rightarrow> bool" where
  "trimIsEmpty s =
     list_all (\<lambda>ch. ch \<in> {CHR '' '', CHR 0x09, CHR 0x0A, CHR 0x0B, CHR 0x0C, CHR 0x0D}) s"

definition bindingIcon :: "ParsedCommand \<Rightarrow> string" where
  "bindingIcon parsed = orEmpty (Option.bind (binding parsed) b_icon)"

definition getNoMatchingSuggestion :: "AutocompleteSuggestion list" where
  "getNoMatchingSuggestion =
     [\<lparr> Complete = [], Suggestion = [], Description = [],
        Hint = ''No matching suggestions.'', IconData = ''error'' \<rparr>]"

definition getErrorSuggestion :: "ParsedCommand \<Rightarrow> AutocompleteSuggestion list" where
  "getErrorSuggestion parsed =
     [\<lparr> Complete = [], Suggestion = [],
        Description = (case error parsed of None \<Rightarrow> [] | Some e \<Rightarrow> errorText e),
        Hint = ''Parsing error'', IconData = ''error'' \<rparr>]"

definition getCommandSuggestions :: "ParsedCommand \<Rightarrow> AutocompleteSuggestion list" where
  "getCommandSuggestions parsed =
     (case binding parsed of
        None \<Rightarrow> []
      | Some b \<Rightarrow>
          if b_bindings b = [] then []
          else map (\<lambda>sub. \<lparr> Complete = b_label sub, Suggestion = b_label sub,
                              Description = orEmpty (b_description sub),
                              Hint = orEmpty (b_hint sub), IconData = orEmpty (b_icon sub) \<rparr>)
                 (filter (\<lambda>sub. startsWith (toLowerCase (b_label sub))
                                    (toLowerCase (incomplete parsed)))
                    (b_bindings b)))"

text \<open>
  The dashes already typed before the flag name shorten the completion prefix:
  \<^verbatim>\<open>for (let i = incompleteStart - 1; i > 0 && i >= incompleteStart - 2 && command[i] === '-'; i--)\<close>.
\<close>

function flagPrefix_loop :: "string \<Rightarrow> nat \<Rightarrow> int \<Rightarrow> string \<Rightarrow> string" where
  "flagPrefix_loop cmd start k pre =
     (if k > 0 \<and> k \<ge> int start - 2 \<and> charAt cmd (nat k) = ''-''
      then flagPrefix_loop cmd start (k - 1) (drop 1 pre)
      else pre)"
  by pat_completeness auto
termination
  by (relation "measure (\<lambda>(cmd, start, k, pre). nat k)") auto

text \<open>
  \<^verbatim>\<open>getFlagNameSuggestions\<close>: \<open>applicableFlagFields\<close> is the local \<^verbatim>\<open>applicable\<close>
  (the filter over the form's fields), \<open>flagNameSuggestion\<close> the function mapped over it.
\<close>

definition applicableFlagFields :: "ParsedCommand \<Rightarrow> AppField list \<Rightarrow> AppField list" where
  "applicableFlagFields parsed flds =
     filter (\<lambda>fld. (case f_label fld of
                       None \<Rightarrow> False
                     | Some l \<Rightarrow>
                         l \<noteq> [] \<and>
                         startsWith (toLowerCase l) (toLowerCase (incomplete parsed)))
                    \<and> \<not> truthy (getProperty (values parsed) (f_name fld)))
       flds"

definition flagNameSuggestion :: "ParsedCommand \<Rightarrow> string \<Rightarrow> AppField \<Rightarrow> AutocompleteSuggestion" where
  "flagNameSuggestion parsed pre fld =
     \<lparr> Complete = pre @ orElse (f_label fld) (f_name fld),
       Suggestion = ''--'' @ orElse (f_label fld) (f_name fld),
       Description = orEmpty (f_description fld),
       Hint = orEmpty (f_hint fld),
       IconData = bindingIcon parsed \<rparr>"

definition getFlagNameSuggestions :: "ParsedCommand \<Rightarrow> AutocompleteSuggestion list" where
  "getFlagNameSuggestions parsed =
     (case form parsed of
        None \<Rightarrow> []
      | Some frm \<Rightarrow>
          if form_fields frm = [] then []
          else
            map (flagNameSuggestion parsed
                   (flagPrefix_loop (command parsed) (incompleteStart parsed)
                      (int (incompleteStart parsed) - 1) ''--''))
              (applicableFlagFields parsed (form_fields frm)))"

definition getUserSuggestions :: "ParsedCommand \<Rightarrow> AutocompleteSuggestion list" where
  "getUserSuggestions parsed =
     (if trimIsEmpty (incomplete parsed) then
        [\<lparr> Complete = [], Suggestion = [],
           Description = orEmpty (Option.bind (field parsed) f_description),
           Hint = orElse (Option.bind (field parsed) f_hint) ''@username'',
           IconData = bindingIcon parsed \<rparr>]
      else [])"

definition getChannelSuggestions :: "ParsedCommand \<Rightarrow> AutocompleteSuggestion list" where
  "getChannelSuggestions parsed =
     (if trimIsEmpty (incomplete parsed) then
        [\<lparr> Complete = [], Suggestion = [],
           Description = orEmpty (Option.bind (field parsed) f_description),
           Hint = orElse (Option.bind (field parsed) f_hint) ''~channelname'',
           IconData = bindingIcon parsed \<rparr>]
      else [])"

definition getBooleanSuggestions :: "ParsedCommand \<Rightarrow> AutocompleteSuggestion list" where
  "getBooleanSuggestions parsed =
     (if startsWith ''true'' (incomplete parsed) then
        [\<lparr> Complete = ''true'', Suggestion = ''true'',
           Description = orEmpty (Option.bind (field parsed) f_description),
           Hint = orEmpty (Option.bind (field parsed) f_hint),
           IconData = bindingIcon parsed \<rparr>]
      else []) @
     (if startsWith ''false'' (incomplete parsed) then
        [\<lparr> Complete = ''false'', Suggestion = ''false'',
           Description = orEmpty (Option.bind (field parsed) f_description),
           Hint = orEmpty (Option.bind (field parsed) f_hint),
           IconData = bindingIcon parsed \<rparr>]
      else [])"

definition wrapComplete :: "string option \<Rightarrow> string \<Rightarrow> string" where
  "wrapComplete delimiter v =
     (case delimiter of
        Some d \<Rightarrow> d @ v @ d
      | None \<Rightarrow> if isMultiword v then BACKTICK @ v @ BACKTICK else v)"

definition getStaticSelectSuggestions ::
  "AppField \<Rightarrow> ParsedCommand \<Rightarrow> string option \<Rightarrow> AutocompleteSuggestion list" where
  "getStaticSelectSuggestions f parsed delimiter =
     (let opts = filter (\<lambda>opt. startsWith (toLowerCase (o_label opt))
                                  (toLowerCase (incomplete parsed)))
                   (f_options f)
      in if opts = [] then
           [\<lparr> Complete = [], Suggestion = [], Description = [],
              Hint = ''No matching options.'', IconData = ''error'' \<rparr>]
         else
           map (\<lambda>opt. \<lparr> Complete = wrapComplete delimiter (o_value opt),
                          Suggestion = o_label opt,
                          Description = orEmpty (f_description f),
                          Hint = orEmpty (f_hint f),
                          IconData = orElse (o_icon_data opt) (bindingIcon parsed) \<rparr>)
             opts)"

definition makeDynamicSelectSuggestionError :: "string \<Rightarrow> AutocompleteSuggestion list" where
  "makeDynamicSelectSuggestionError message =
     [\<lparr> Complete = [], Suggestion = ''Dynamic select error'',
        Description = ''Error: '' @ message, Hint = [], IconData = ''error'' \<rparr>]"

definition getDynamicSelectSuggestions ::
  "Store \<Rightarrow> AppCommandParser \<Rightarrow> ParsedCommand \<Rightarrow> string option
     \<Rightarrow> AutocompleteSuggestion list \<times> AppCommandParser" where
  "getDynamicSelectSuggestions store parser parsed delimiter =
     (case field parsed of
        None \<Rightarrow> (makeDynamicSelectSuggestionError ''Unexpected error.'', parser)
      | Some f \<Rightarrow>
          (let composed = composeCallFromParsed store parser parsed in
           case call composed of
             None \<Rightarrow>
               (makeDynamicSelectSuggestionError
                  (''Error preparing lookup request: '' @ orEmpty (errorMessage composed)),
                parser)
           | Some c \<Rightarrow>
               (let request = c\<lparr> selected_field := Some (f_name f),
                                  query := Some (incomplete parsed) \<rparr>;
                    res = doAppCall store (dispatched parser) request LOOKUP;
                    parser1 = parser\<lparr> dispatched := dispatched parser + 1 \<rparr>
                in case res of
                     CallError e \<Rightarrow>
                       (makeDynamicSelectSuggestionError (orElse e ''Unknown error.''), parser1)
                   | CallData callResponse \<Rightarrow>
                       (case r_type callResponse of
                          OK \<Rightarrow>
                            (if r_items callResponse = [] then
                               ([\<lparr> Complete = [], Suggestion = [],
                                   Description = ''No data was returned for dynamic suggestions'',
                                   Hint = ''No matching options.'', IconData = [] \<rparr>],
                                parser1)
                             else
                               (map (\<lambda>item. \<lparr> Complete = wrapComplete delimiter (o_value item),
                                                 Suggestion = o_value item,
                                                 Description = o_label item,
                                                 Hint = [],
                                                 IconData = orElse (o_icon_data item)
                                                              (bindingIcon parsed) \<rparr>)
                                  (r_items callResponse),
                                parser1))
                        | NAVIGATE \<Rightarrow>
                            (makeDynamicSelectSuggestionError
                               (fetchErrorText (unexpected_type (r_type callResponse))), parser1)
                        | FORM \<Rightarrow>
                            (makeDynamicSelectSuggestionError
                               (fetchErrorText (unexpected_type (r_type callResponse))), parser1)
                        | OtherResponseType t \<Rightarrow>
                            (makeDynamicSelectSuggestionError
                               (fetchErrorText (unknown_type (r_type callResponse))), parser1)))))"

definition getValueSuggestions ::
  "Store \<Rightarrow> AppCommandParser \<Rightarrow> ParsedCommand \<Rightarrow> string option
     \<Rightarrow> AutocompleteSuggestion list \<times> AppCommandParser" where
  "getValueSuggestions store parser parsed delimiter =
     (case field parsed of
        None \<Rightarrow> ([], parser)
      | Some f \<Rightarrow>
          (case f_type f of
             USER \<Rightarrow> (getUserSuggestions parsed, parser)
           | CHANNEL \<Rightarrow> (getChannelSuggestions parsed, parser)
           | BOOL \<Rightarrow> (getBooleanSuggestions parsed, parser)
           | DYNAMIC_SELECT \<Rightarrow> getDynamicSelectSuggestions store parser parsed delimiter
           | STATIC_SELECT \<Rightarrow> (getStaticSelectSuggestions f parsed delimiter, parser)
           | _ \<Rightarrow>
               ([\<lparr> Complete = (case delimiter of
                                   Some d \<Rightarrow> if incomplete parsed \<noteq> []
                                             then d @ incomplete parsed @ d
                                             else incomplete parsed
                                 | None \<Rightarrow> incomplete parsed),
                   Suggestion = orElse (f_label f) (f_name f) @ '': ''
                                  @ orElse delimiter DQUOTE @ incomplete parsed
                                  @ orElse delimiter DQUOTE,
                   Description = orEmpty (f_description f),
                   Hint = [],
                   IconData = bindingIcon parsed \<rparr>],
                parser)))"

text \<open>
  \<^verbatim>\<open>getParameterSuggestions\<close> may set \<^verbatim>\<open>parsed.field\<close> to the next positional field;
  the parsed command is returned with the suggestions.
\<close>

definition getParameterSuggestions ::
  "Store \<Rightarrow> AppCommandParser \<Rightarrow> ParsedCommand
     \<Rightarrow> AutocompleteSuggestion list \<times> ParsedCommand \<times> AppCommandParser" where
  "getParameterSuggestions store parser parsed =
     (case state parsed of
        StartParameter \<Rightarrow>
          (case Option.bind (form parsed)
                  (\<lambda>frm. find (\<lambda>fld. f_position fld = Some (position parsed + 1))
                            (form_fields frm)) of
             Some positional \<Rightarrow>
               (let parsed1 = parsed\<lparr> field := Some positional \<rparr>;
                    (sugg, parser1) = getValueSuggestions store parser parsed1 None
                in (sugg, parsed1, parser1))
           | None \<Rightarrow> (getFlagNameSuggestions parsed, parsed, parser))
      | Flag \<Rightarrow> (getFlagNameSuggestions parsed, parsed, parser)
      | EndValue \<Rightarrow>
          (let (sugg, parser1) = getValueSuggestions store parser parsed None
           in (sugg, parsed, parser1))
      | FlagValueSeparator \<Rightarrow>
          (let (sugg, parser1) = getValueSuggestions store parser parsed None
           in (sugg, parsed, parser1))
      | NonspaceValue \<Rightarrow>
          (let (sugg, parser1) = getValueSuggestions store parser parsed None
           in (sugg, parsed, parser1))
      | EndQuotedValue \<Rightarrow>
          (let (sugg, parser1) = getValueSuggestions store parser parsed (Some DQUOTE)
           in (sugg, parsed, parser1))
      | QuotedValue \<Rightarrow>
          (let (sugg, parser1) = getValueSuggestions store parser parsed (Some DQUOTE)
           in (sugg, parsed, parser1))
      | EndTickedValue \<Rightarrow>
          (let (sugg, parser1) = getValueSuggestions store parser parsed (Some BACKTICK)
           in (sugg, parsed, parser1))
      | TickValue \<Rightarrow>
          (let (sugg, parser1) = getValueSuggestions store parser parsed (Some BACKTICK)
           in (sugg, parsed, parser1))
      | _ \<Rightarrow> ([], parsed, parser))"

text \<open>
  \<^verbatim>\<open>decorateSuggestionComplete\<close>: the chosen text is spliced into the command at the start
  of the current token. \<^verbatim>\<open>substring(0, n)\<close> with a negative \<^verbatim>\<open>n\<close> is empty, as the
  truncated subtraction gives.
\<close>

definition decorateSuggestionComplete ::
  "Store \<Rightarrow> ParsedCommand \<Rightarrow> AutocompleteSuggestion \<Rightarrow> AutocompleteSuggestion" where
  "decorateSuggestionComplete store parsed choice =
     (if Complete choice \<noteq> [] \<and>
         endsWith (Complete choice) (EXECUTE_CURRENT_COMMAND_ITEM_ID store)
      then choice
      else
        (let goBackSpace = (if Complete choice = [] then 1 else 0 :: nat);
             complete = take (incompleteStart parsed - goBackSpace) (command parsed)
                          @ Complete choice
         in choice\<lparr> Complete := drop 1 complete \<rparr>))"

definition executableStates :: "ParseState list" where
  "executableStates =
     [EndCommand, CommandSeparator, StartParameter, ParameterSeparator, EndValue]"

text \<open>
  \<^verbatim>\<open>getSuggestions\<close> in two parts. \<open>collectSuggestions\<close> runs the two phases in
  autocomplete mode and gathers the error, sub-command and parameter suggestions; it is
  \<^term>\<open>None\<close> only if parseForm did not return. As in \<open>composeCallFromCommand\<close> the
  guard on the bindings has no branch.
\<close>

definition collectSuggestions ::
  "Store \<Rightarrow> AppCommandParser \<Rightarrow> string
     \<Rightarrow> (ParsedCommand \<times> AutocompleteSuggestion list \<times> AppCommandParser) option" where
  "collectSuggestions store parser pretext =
     (let (parsed1, parser1) =
            matchBinding store (getCommandBindings store) True (new_ParsedCommand pretext) parser;
          suggestions1 = (if state parsed1 = Error then getErrorSuggestion parsed1 else []);
          suggestions2 = (if state parsed1 = Command then getCommandSuggestions parsed1
                          else suggestions1)
      in if form parsed1 \<noteq> None \<or> incomplete parsed1 \<noteq> [] then
           (case parseForm True parsed1 of
              None \<Rightarrow> None
            | Some parsed2 \<Rightarrow>
                (let suggestions3 = (if state parsed2 = Error then getErrorSuggestion parsed2
                                     else suggestions2);
                     (argSuggestions, parsed3, parser2) =
                        getParameterSuggestions store parser1 parsed2
                 in Some (parsed3, suggestions3 @ argSuggestions, parser2)))
         else Some (parsed1, suggestions2, parser1))"

text \<open>
  The condition of the ``Execute Current Command'' branch: an executable state, a call
  target, no required field missing, and a value in the current slot.
\<close>

definition canExecute :: "ParsedCommand \<Rightarrow> bool" where
  "canExecute parsed =
     (let callTarget =
            (case Option.bind (form parsed) form_call of
               Some c \<Rightarrow> Some c
             | None \<Rightarrow>
                 (case Option.bind (binding parsed) b_call of
                    Some c \<Rightarrow> Some c
                  | None \<Rightarrow> Option.bind (Option.bind (binding parsed) b_form) form_call));
          hasRequired = (length (getMissingFields parsed) = 0);
          hasValue = (state parsed \<noteq> EndValue \<or>
                      (case field parsed of
                         None \<Rightarrow> False
                       | Some f \<Rightarrow> getProperty (values parsed) (f_name f) \<noteq> None))
      in state parsed \<in> set executableStates \<and> callTarget \<noteq> None \<and> hasRequired \<and> hasValue)"

text \<open>The rest: the execute suggestion, or the placeholder, then the decoration.\<close>

definition finishSuggestions ::
  "Store \<Rightarrow> ParsedCommand \<Rightarrow> AutocompleteSuggestion list \<Rightarrow> AutocompleteSuggestion list" where
  "finishSuggestions store parsed suggestions =
     map (decorateSuggestionComplete store parsed)
       (if canExecute parsed
        then (case getExecuteSuggestion store parsed of
                Some execute \<Rightarrow> execute # suggestions
              | None \<Rightarrow> suggestions)
        else if length suggestions = 0 \<and>
                map_option f_type (field parsed) \<noteq> Some USER \<and>
                map_option f_type (field parsed) \<noteq> Some CHANNEL
        then getNoMatchingSuggestion
        else suggestions)"

definition getSuggestions ::
  "Store \<Rightarrow> AppCommandParser \<Rightarrow> string
     \<Rightarrow> (AutocompleteSuggestion list \<times> AppCommandParser) option" where
  "getSuggestions store parser pretext =
     (case collectSuggestions store parser pretext of
        None \<Rightarrow> None
      | Some (parsed, suggestions, parser1) \<Rightarrow>
          Some (finishSuggestions store parsed suggestions, parser1))"

text \<open>
  \<^verbatim>\<open>isAppCommand\<close>: the loop over the top-level bindings, with its early return.
  \<open>commandBase\<close> is the local \<^verbatim>\<open>base\<close>: the label, with a slash in front if it has
  none.
\<close>

definition commandBase :: "AppBinding \<Rightarrow> string" where
  "commandBase b = (if take 1 (b_label b) \<noteq> ''/'' then ''/'' @ b_label b else b_label b)"

fun isAppCommand_loop :: "string \<Rightarrow> AppBinding list \<Rightarrow> bool" where
  "isAppCommand_loop cmd [] = False"
| "isAppCommand_loop cmd (b # bs) =
     (if b_label b = [] then isAppCommand_loop cmd bs
      else if startsWith cmd (commandBase b @ '' '') then True
      else isAppCommand_loop cmd bs)"

definition isAppCommand :: "Store \<Rightarrow> string \<Rightarrow> bool" where
  "isAppCommand store pretext =
     isAppCommand_loop (toLowerCase pretext) (getCommandBindings store)"

section \<open>A small schema for concrete runs\<close>

text \<open>
  One command \<^verbatim>\<open>/cmd\<close> with a positional text field, a boolean flag, a user flag and
  an inline form; a store that knows this binding and nothing else.
\<close>

definition exampleField :: "string \<Rightarrow> AppFieldTypes \<Rightarrow> nat option \<Rightarrow> bool \<Rightarrow> AppField" where
  "exampleField n t p req =
     \<lparr> f_name = n, f_label = Some n, f_type = t, f_position = p, f_is_required = req,
       f_value = None, f_readonly = False, f_options = [], f_description = None,
       f_hint = None \<rparr>"

definition exampleForm :: AppForm where
  "exampleForm =
     \<lparr> form_fields = [exampleField ''message'' TEXT (Some 1) False,
                       exampleField ''done'' BOOL None False,
                       exampleField ''user'' USER None False],
       form_call = Some (AppCall ''/submit'') \<rparr>"

definition exampleBinding :: "string \<Rightarrow> AppForm option \<Rightarrow> AppBinding" where
  "exampleBinding l frm = AppBinding l None None None frm [] ''app'' None"

definition exampleStore :: "AppBinding list \<Rightarrow> Store" where
  "exampleStore bs =
     \<lparr> getAppsBindings = bs,
       selectUser = (\<lambda>_. None), getUser = (\<lambda>_. None),
       selectChannel = (\<lambda>_. None), getChannel = (\<lambda>_. None),
       selectUserByUsername = (\<lambda>_. None), getUserByUsername = (\<lambda>_. None),
       selectChannelByName = (\<lambda>_. None), getChannelByNameAndTeamName = (\<lambda>_ _. None),
       getCurrentTeamName = ''team'', getCurrentTeamId = ''team-id'',
       doAppCall = (\<lambda>_ _ _. CallError None),
       getExecuteSuggestion = (\<lambda>_. None),
       EXECUTE_CURRENT_COMMAND_ITEM_ID = ''_execute_current_command'',
       parserErrorMessage = (\<lambda>e _ _. case e of None \<Rightarrow> [] | Some m \<Rightarrow> errorText m),
       formatMember = (\<lambda>m. m) \<rparr>"

definition exampleParser :: AppCommandParser where
  "exampleParser = new_AppCommandParser ''channel'' None"

text \<open>
  For the form cache: any later sequence of \<open>getForm\<close> calls on the same parser object,
  a store whose first remote call fails and whose later ones answer with a form, and a
  binding without an inline form.
\<close>

definition getForm_session ::
  "Store \<Rightarrow> (string \<times> AppBinding) list \<Rightarrow> AppCommandParser \<Rightarrow> AppCommandParser" where
  "getForm_session store reqs parser =
     fold (\<lambda>(loc, b) p. snd (getForm store loc b p)) reqs parser"

definition retryStore :: Store where
  "retryStore =
     (exampleStore [])\<lparr> doAppCall :=
        (\<lambda>n _ _. if n = 0 then CallError None
                  else CallData \<lparr> r_type = FORM, r_form = Some exampleForm, r_items = [] \<rparr>) \<rparr>"

definition remoteBinding :: AppBinding where
  "remoteBinding = AppBinding ''remote'' None None None None [] ''app'' (Some (AppCall ''/form''))"

text \<open>A form whose only field is required.\<close>

definition requiredForm :: AppForm where
  "requiredForm =
     \<lparr> form_fields = [exampleField ''message'' TEXT (Some 1) True],
       form_call = Some (AppCall ''/submit'') \<rparr>"

text \<open>
  A form whose only field is required and named like a member of \<^verbatim>\<open>Object.prototype\<close>,
  and the example form with the boolean flag \<^verbatim>\<open>--done\<close> stored under the name
  \<^verbatim>\<open>__proto__\<close>.
\<close>

definition constructorForm :: AppForm where
  "constructorForm =
     \<lparr> form_fields = [exampleField ''constructor'' TEXT None True],
       form_call = Some (AppCall ''/submit'') \<rparr>"

definition protoForm :: AppForm where
  "protoForm =
     \<lparr> form_fields = [exampleField ''message'' TEXT (Some 1) False,
                       (exampleField ''__proto__'' BOOL None False)\<lparr> f_label := Some ''done'' \<rparr>,
                       exampleField ''user'' USER None False],
       form_call = Some (AppCall ''/submit'') \<rparr>"

text \<open>The parse of \<^verbatim>\<open>/cmd --done --\<close> in autocomplete mode, written out.\<close>

definition flagParsed :: ParsedCommand where
  "flagParsed =
     (new_ParsedCommand ''/cmd --done --'')
       \<lparr> state := Flag, i := 14, incompleteStart := 14,
         binding := Some (exampleBinding ''cmd'' (Some exampleForm)),
         form := Some exampleForm, values := [''done'' \<mapsto> ''true''] \<rparr>"

text \<open>
  The cursor at the opening double quote of an unterminated value \<^verbatim>\<open>abc\<close>, about to
  read it.
\<close>

definition openQuoteParsed :: ParsedCommand where
  "openQuoteParsed =
     (new_ParsedCommand (''/cmd '' @ DQUOTE @ ''abc''))
       \<lparr> state := StartValue, i := 5, incompleteStart := 5, position := 1,
         binding := Some (exampleBinding ''cmd'' (Some exampleForm)),
         form := Some exampleForm,
         field := Some (exampleField ''message'' TEXT (Some 1) False) \<rparr>"


text \<open>
  The cursor of \<^verbatim>\<open>/cmd zzz arg\<close> after the binding \<^verbatim>\<open>cmd\<close> was matched, at the start
  of the next token; \<^verbatim>\<open>cmd\<close> has no sub-commands.
\<close>

definition unmatchedTokenParsed :: ParsedCommand where
  "unmatchedTokenParsed =
     (new_ParsedCommand ''/cmd zzz arg'')
       \<lparr> state := Command, i := 5, incompleteStart := 5,
         binding := Some (exampleBinding ''cmd'' (Some exampleForm)),
         location := ''/cmd'' \<rparr>"

section \<open>Termination of the two loops\<close>

lemma matchBinding_step_decreases:
  assumes "matchBinding_step am bs ps = Again bs1 ps1"
  shows "matchMeasure ps1 < matchMeasure ps"
proof (cases "state ps")
  case Start
  with assms show ?thesis
    by (auto simp: matchBinding_step_def matchMeasure_def Let_def charAt_def split: if_splits)
next
  case Command
  with assms show ?thesis
    by (auto simp: matchBinding_step_def matchMeasure_def Let_def charAt_def split: if_splits)
next
  case EndCommand
  with assms show ?thesis
    by (auto simp: matchBinding_step_def matchMeasure_def Let_def charAt_def
             split: if_splits option.splits)
next
  case CommandSeparator
  with assms show ?thesis
    by (auto simp: matchBinding_step_def matchMeasure_def Let_def charAt_def split: if_splits)
qed (use assms in \<open>simp_all add: matchBinding_step_def\<close>)

termination matchBinding_loop
  by (relation "measure (\<lambda>(am, bs, ps). matchMeasure ps)")
     (simp_all add: matchBinding_step_decreases)

declare matchBinding_loop.simps [simp del]


lemma stepDecreasesI1: "inputLeft ps1 < inputLeft ps \<Longrightarrow> stepDecreases flds ps1 ps" by (simp add: stepDecreases_def)
lemma stepDecreasesI2: "inputLeft ps1 = inputLeft ps \<Longrightarrow> positionsLeft flds ps1 < positionsLeft flds ps \<Longrightarrow> stepDecreases flds ps1 ps" by (simp add: stepDecreases_def)
lemma stepDecreasesI3: "inputLeft ps1 \<le> inputLeft ps \<Longrightarrow> positionsLeft flds ps1 = positionsLeft flds ps \<Longrightarrow> parameterLeft ps1 < parameterLeft ps \<Longrightarrow> stepDecreases flds ps1 ps"
  by (auto simp: stepDecreases_def)

lemma find_position_le_sum: "find (\<lambda>f. f_position f = Some p) flds = Some f \<Longrightarrow>
   p \<le> sum_list (map (\<lambda>f. case f_position f of None \<Rightarrow> 0 | Some p \<Rightarrow> p) flds)"
  by (induction flds) (auto split: if_splits)

lemma charAt_nonempty: "charAt s k \<noteq> [] \<Longrightarrow> k < length s"
  by (simp add: charAt_def split: if_splits)

lemma parseForm_step_decreases_StartParameter:
  assumes "parseForm_step am flds feu esc ps = Next feu1 esc1 ps1" "state ps = StartParameter"
  shows "stepDecreases flds ps1 ps"
proof (cases "charAt (command ps) (i ps) = ''-''")
  case True
  then have "i ps < length (command ps)" by (auto simp: charAt_def split: if_splits)
  moreover have "ps1 = ps\<lparr> state := Flag1, i := i ps + 1 \<rparr>"
    using assms True by (simp add: parseForm_step_def)
  ultimately show ?thesis by (intro stepDecreasesI1) (simp add: inputLeft_def parameterStart_def assms(2))
next
  case False
  then obtain f where f: "find (\<lambda>f. f_position f = Some (position ps + 1)) flds = Some f"
     and ps1: "ps1 = ps\<lparr> position := position ps + 1, field := Some f, state := StartValue \<rparr>"
    using assms by (auto simp: parseForm_step_def Let_def split: if_splits option.splits)
  from find_position_le_sum[OF f] show ?thesis unfolding ps1
    by (intro stepDecreasesI2) (simp_all add: inputLeft_def positionsLeft_def parameterStart_def assms(2))
qed

lemma parseForm_step_decreases_endValue:
  assumes "parseForm_endValue am feu esc c ps = Next feu1 esc1 ps1" "state ps \<in> {EndValue, EndQuotedValue, EndTickedValue}"
  shows "stepDecreases flds ps1 ps"
proof -
  obtain f where f: "field ps = Some f"
    using assms(1) by (cases "field ps") (simp_all add: parseForm_endValue_def)
  consider (backtrack) "ps1 = ps\<lparr> i := incompleteStart ps, values := setProperty (values ps) (f_name f) ''true'', state := StartParameter \<rparr>"
    | (forward) "ps1 = ps\<lparr> values := setProperty (values ps) (f_name f) (incomplete ps), incomplete := [], incompleteStart := i ps, state := ParameterSeparator \<rparr>"
    using assms(1) f by (auto simp: parseForm_endValue_def Let_def split: if_splits)
  then show ?thesis
  proof cases
    case backtrack
    show ?thesis using assms(2) unfolding backtrack
      by (intro stepDecreasesI3) (auto simp: inputLeft_def positionsLeft_def parameterLeft_def parameterStart_def stateRank_def)
  next
    case forward
    show ?thesis using assms(2) unfolding forward
      by (intro stepDecreasesI3) (auto simp: inputLeft_def positionsLeft_def parameterLeft_def parameterStart_def stateRank_def)
  qed
qed

lemma parseForm_step_decreases_ParameterSeparator:
  assumes "parseForm_step am flds feu esc ps = Next feu1 esc1 ps1" "state ps = ParameterSeparator"
  shows "stepDecreases flds ps1 ps"
proof (cases "charAt (command ps) (i ps) = '' '' \<or> charAt (command ps) (i ps) = TAB")
  case True
  then have "i ps < length (command ps)" by (auto simp: charAt_def split: if_splits)
  moreover have "ps1 = ps\<lparr> incompleteStart := i ps, i := i ps + 1 \<rparr>"
    using assms True by (auto simp: parseForm_step_def Let_def)
  ultimately show ?thesis by (intro stepDecreasesI1) (simp add: inputLeft_def parameterStart_def assms(2))
next
  case False
  then have "ps1 = ps\<lparr> incompleteStart := i ps, state := StartParameter \<rparr>"
    using assms by (auto simp: parseForm_step_def Let_def split: if_splits)
  then show ?thesis
    by (intro stepDecreasesI3) (simp_all add: inputLeft_def positionsLeft_def parameterLeft_def parameterStart_def stateRank_def assms(2))
qed

lemma parseForm_step_decreases_Flag1:
  assumes "parseForm_step am flds feu esc ps = Next feu1 esc1 ps1" "state ps = Flag1"
  shows "stepDecreases flds ps1 ps"
proof (cases "charAt (command ps) (i ps) = ''-''")
  case True
  then have "i ps < length (command ps)" by (auto simp: charAt_def split: if_splits)
  moreover have "ps1 = ps\<lparr> i := i ps + 1, state := Flag, incomplete := [], incompleteStart := i ps + 1 \<rparr>"
    using assms True by (simp add: parseForm_step_def)
  ultimately show ?thesis by (intro stepDecreasesI1) (simp add: inputLeft_def parameterStart_def assms(2))
next
  case False
  then have "ps1 = ps\<lparr> state := Flag, incomplete := [], incompleteStart := i ps \<rparr>"
    using assms by (simp add: parseForm_step_def)
  then show ?thesis
    by (intro stepDecreasesI3) (simp_all add: inputLeft_def positionsLeft_def parameterLeft_def parameterStart_def stateRank_def assms(2))
qed

lemma parseForm_step_decreases_Flag:
  assumes "parseForm_step am flds feu esc ps = Next feu1 esc1 ps1" "state ps = Flag"
  shows "stepDecreases flds ps1 ps"
proof -
  let ?c = "charAt (command ps) (i ps)"
  consider (name_end) f where "ps1 = ps\<lparr> state := FlagValueSeparator, field := Some f, incomplete := [] \<rparr>"
    | (name_char) "?c \<noteq> []" "ps1 = ps\<lparr> incomplete := incomplete ps @ ?c, i := i ps + 1 \<rparr>"
    using assms by (auto simp: parseForm_step_def Let_def split: if_splits option.splits)
  then show ?thesis
  proof cases
    case name_end
    then show ?thesis
      by (intro stepDecreasesI3) (simp_all add: inputLeft_def positionsLeft_def parameterLeft_def parameterStart_def stateRank_def assms(2))
  next
    case name_char
    from charAt_nonempty[OF name_char(1)] show ?thesis unfolding name_char(2)
      by (intro stepDecreasesI1) (simp add: inputLeft_def parameterStart_def assms(2))
  qed
qed


lemma parseForm_step_decreases_FlagValueSeparator:
  assumes "parseForm_step am flds feu esc ps = Next feu1 esc1 ps1" "state ps = FlagValueSeparator"
  shows "stepDecreases flds ps1 ps"
proof -
  let ?c = "charAt (command ps) (i ps)"
  consider (skip) "?c \<noteq> []" "ps1 = ps\<lparr> incompleteStart := i ps, i := i ps + 1 \<rparr>"
    | (to_value) "ps1 = ps\<lparr> incompleteStart := i ps, state := StartValue \<rparr>"
    using assms by (auto simp: parseForm_step_def Let_def split: if_splits)
  then show ?thesis
  proof cases
    case skip
    from charAt_nonempty[OF skip(1)] show ?thesis unfolding skip(2)
      by (intro stepDecreasesI1) (simp add: inputLeft_def parameterStart_def assms(2))
  next
    case to_value
    then show ?thesis
      by (intro stepDecreasesI3) (simp_all add: inputLeft_def positionsLeft_def parameterLeft_def parameterStart_def stateRank_def assms(2))
  qed
qed

lemma parseForm_step_decreases_StartValue:
  assumes "parseForm_step am flds feu esc ps = Next feu1 esc1 ps1" "state ps = StartValue"
  shows "stepDecreases flds ps1 ps"
proof -
  let ?c = "charAt (command ps) (i ps)"
  consider (quoted) "?c \<noteq> []"
      "ps1 = ps\<lparr> incomplete := [], incompleteStart := i ps, state := QuotedValue, i := i ps + 1 \<rparr>"
    | (ticked) "?c \<noteq> []"
      "ps1 = ps\<lparr> incomplete := [], incompleteStart := i ps, state := TickValue, i := i ps + 1 \<rparr>"
    | (plain) "ps1 = ps\<lparr> incomplete := [], incompleteStart := i ps, state := NonspaceValue \<rparr>"
    using assms by (auto simp: parseForm_step_def Let_def split: if_splits)
  then show ?thesis
  proof cases
    case quoted
    from charAt_nonempty[OF quoted(1)] show ?thesis unfolding quoted(2)
      by (intro stepDecreasesI3) (simp_all add: inputLeft_def positionsLeft_def parameterLeft_def parameterStart_def stateRank_def assms(2))
  next
    case ticked
    from charAt_nonempty[OF ticked(1)] show ?thesis unfolding ticked(2)
      by (intro stepDecreasesI3) (simp_all add: inputLeft_def positionsLeft_def parameterLeft_def parameterStart_def stateRank_def assms(2))
  next
    case plain
    then show ?thesis
      by (intro stepDecreasesI3) (simp_all add: inputLeft_def positionsLeft_def parameterLeft_def parameterStart_def stateRank_def assms(2))
  qed
qed

lemma parseForm_step_decreases_NonspaceValue:
  assumes "parseForm_step am flds feu esc ps = Next feu1 esc1 ps1" "state ps = NonspaceValue"
  shows "stepDecreases flds ps1 ps"
proof -
  let ?c = "charAt (command ps) (i ps)"
  consider (value_end) "ps1 = ps\<lparr> state := EndValue \<rparr>"
    | (value_char) "?c \<noteq> []" "ps1 = ps\<lparr> incomplete := incomplete ps @ ?c, i := i ps + 1 \<rparr>"
    using assms by (auto simp: parseForm_step_def Let_def split: if_splits)
  then show ?thesis
  proof cases
    case value_end
    then show ?thesis
      by (intro stepDecreasesI3) (simp_all add: inputLeft_def positionsLeft_def parameterLeft_def parameterStart_def stateRank_def assms(2))
  next
    case value_char
    from charAt_nonempty[OF value_char(1)] show ?thesis unfolding value_char(2)
      by (intro stepDecreasesI3) (simp_all add: inputLeft_def positionsLeft_def parameterLeft_def parameterStart_def stateRank_def assms(2))
  qed
qed

lemma parseForm_step_decreases_QuotedValue:
  assumes "parseForm_step am flds feu esc ps = Next feu1 esc1 ps1" "state ps = QuotedValue"
  shows "stepDecreases flds ps1 ps"
proof -
  let ?c = "charAt (command ps) (i ps)"
  consider (closing) "?c \<noteq> []" "ps1 = ps\<lparr> i := i ps + 1, state := EndQuotedValue \<rparr>"
    | (escape) "?c \<noteq> []" "ps1 = ps\<lparr> i := i ps + 1 \<rparr>"
    | (value_char) "?c \<noteq> []" "ps1 = ps\<lparr> incomplete := incomplete ps @ ?c, i := i ps + 1 \<rparr>"
    using assms by (auto simp: parseForm_step_def Let_def split: if_splits)
  then show ?thesis
  proof cases
    case closing
    from charAt_nonempty[OF closing(1)] show ?thesis unfolding closing(2)
      by (intro stepDecreasesI3) (simp_all add: inputLeft_def positionsLeft_def parameterLeft_def parameterStart_def stateRank_def assms(2))
  next
    case escape
    from charAt_nonempty[OF escape(1)] show ?thesis unfolding escape(2)
      by (intro stepDecreasesI3) (simp_all add: inputLeft_def positionsLeft_def parameterLeft_def parameterStart_def stateRank_def assms(2))
  next
    case value_char
    from charAt_nonempty[OF value_char(1)] show ?thesis unfolding value_char(2)
      by (intro stepDecreasesI3) (simp_all add: inputLeft_def positionsLeft_def parameterLeft_def parameterStart_def stateRank_def assms(2))
  qed
qed

lemma parseForm_step_decreases_TickValue:
  assumes "parseForm_step am flds feu esc ps = Next feu1 esc1 ps1" "state ps = TickValue"
  shows "stepDecreases flds ps1 ps"
proof -
  let ?c = "charAt (command ps) (i ps)"
  consider (closing) "?c \<noteq> []" "ps1 = ps\<lparr> i := i ps + 1, state := EndTickedValue \<rparr>"
    | (value_char) "?c \<noteq> []" "ps1 = ps\<lparr> incomplete := incomplete ps @ ?c, i := i ps + 1 \<rparr>"
    using assms by (auto simp: parseForm_step_def Let_def split: if_splits)
  then show ?thesis
  proof cases
    case closing
    from charAt_nonempty[OF closing(1)] show ?thesis unfolding closing(2)
      by (intro stepDecreasesI3) (simp_all add: inputLeft_def positionsLeft_def parameterLeft_def parameterStart_def stateRank_def assms(2))
  next
    case value_char
    from charAt_nonempty[OF value_char(1)] show ?thesis unfolding value_char(2)
      by (intro stepDecreasesI3) (simp_all add: inputLeft_def positionsLeft_def parameterLeft_def parameterStart_def stateRank_def assms(2))
  qed
qed

lemma parseForm_step_decreases:
  assumes "parseForm_step am flds feu esc ps = Next feu1 esc1 ps1"
  shows "stepDecreases flds ps1 ps"
proof (cases "state ps")
  case StartParameter then show ?thesis using assms by (rule parseForm_step_decreases_StartParameter[rotated])
next
  case ParameterSeparator then show ?thesis using assms by (rule parseForm_step_decreases_ParameterSeparator[rotated])
next
  case Flag1 then show ?thesis using assms by (rule parseForm_step_decreases_Flag1[rotated])
next
  case Flag then show ?thesis using assms by (rule parseForm_step_decreases_Flag[rotated])
next
  case FlagValueSeparator then show ?thesis using assms by (rule parseForm_step_decreases_FlagValueSeparator[rotated])
next
  case StartValue then show ?thesis using assms by (rule parseForm_step_decreases_StartValue[rotated])
next
  case NonspaceValue then show ?thesis using assms by (rule parseForm_step_decreases_NonspaceValue[rotated])
next
  case QuotedValue then show ?thesis using assms by (rule parseForm_step_decreases_QuotedValue[rotated])
next
  case TickValue then show ?thesis using assms by (rule parseForm_step_decreases_TickValue[rotated])
next
  case EndValue
  then show ?thesis using assms parseForm_step_decreases_endValue[of am feu esc _ ps feu1 esc1 ps1 flds]
    by (simp add: parseForm_step_def)
next
  case EndQuotedValue
  then show ?thesis using assms parseForm_step_decreases_endValue[of am feu esc _ ps feu1 esc1 ps1 flds]
    by (simp add: parseForm_step_def)
next
  case EndTickedValue
  then show ?thesis using assms parseForm_step_decreases_endValue[of am feu esc _ ps feu1 esc1 ps1 flds]
    by (simp add: parseForm_step_def)
qed (use assms in \<open>simp_all add: parseForm_step_def\<close>)

termination parseForm_loop
proof (relation "measures [\<lambda>(am, flds, feu, esc, ps). inputLeft ps,
                           \<lambda>(am, flds, feu, esc, ps). positionsLeft flds ps,
                           \<lambda>(am, flds, feu, esc, ps). parameterLeft ps]")
  show "wf (measures [\<lambda>(am, flds, feu, esc, ps). inputLeft ps,
                      \<lambda>(am, flds, feu, esc, ps). positionsLeft flds ps,
                      \<lambda>(am, flds, feu, esc, ps). parameterLeft ps])"
    by simp
next
  fix autocompleteMode flds flagEqualsUsed escaped ps x21 x22 x23
  assume "parseForm_step autocompleteMode flds flagEqualsUsed escaped ps = Next x21 x22 x23"
  from parseForm_step_decreases[OF this]
  show "((autocompleteMode, flds, x21, x22, x23), autocompleteMode, flds, flagEqualsUsed, escaped, ps)
        \<in> measures [\<lambda>(am, flds, feu, esc, ps). inputLeft ps,
                     \<lambda>(am, flds, feu, esc, ps). positionsLeft flds ps,
                     \<lambda>(am, flds, feu, esc, ps). parameterLeft ps]"
    by (auto simp: stepDecreases_def)
qed

declare parseForm_loop.simps [simp del]

section \<open>Shared facts\<close>

lemma charAt_0: "charAt cmd 0 = take 1 cmd"
  by (cases cmd) (simp_all add: charAt_def)

lemma charAt_Suc_drop:
  "k < length s \<Longrightarrow> charAt s k = [s ! k] \<and> drop k s = s ! k # drop (Suc k) s"
  by (simp add: charAt_def Cons_nth_drop_Suc)

lemma charAt_end: "length s \<le> k \<Longrightarrow> charAt s k = []"
  by (simp add: charAt_def)

text \<open>One iteration of the matchBinding loop, as an equation.\<close>

lemma matchBinding_loop_Again:
  "matchBinding_step am bs ps = Again bs1 ps1 \<Longrightarrow>
   matchBinding_loop am bs ps = matchBinding_loop am bs1 ps1"
  by (subst matchBinding_loop.simps) simp

lemma matchBinding_loop_Finished:
  "matchBinding_step am bs ps = Finished ps1 \<Longrightarrow> matchBinding_loop am bs ps = Inr ps1"
  by (subst matchBinding_loop.simps) simp

lemma matchBinding_loop_Failed:
  "matchBinding_step am bs ps = Failed failed \<Longrightarrow> matchBinding_loop am bs ps = Inl failed"
  by (subst matchBinding_loop.simps) simp

text \<open>One iteration of the parseForm loop, as an equation.\<close>

lemma parseForm_loop_Next:
  "parseForm_step am flds feu esc ps = Next feu1 esc1 ps1 \<Longrightarrow>
   parseForm_loop am flds feu esc ps = parseForm_loop am flds feu1 esc1 ps1"
  by (subst parseForm_loop.simps) simp


text \<open>
  parseForm always returns: from a state the \<^verbatim>\<open>switch\<close> lists, every step returns or
  moves to such a state again, and the loop terminates. The command, the binding, the form
  and the location are not touched.
\<close>

lemma parseForm_endValue_cases:
  "(\<exists>r. parseForm_endValue am feu esc c ps = Return r \<and>
          command r = command ps \<and> binding r = binding ps \<and> form r = form ps \<and>
          location r = location ps) \<or>
   (\<exists>ps1. parseForm_endValue am feu esc c ps = Next feu esc ps1 \<and>
          state ps1 \<in> {StartParameter, ParameterSeparator} \<and>
          command ps1 = command ps \<and> binding ps1 = binding ps \<and> form ps1 = form ps \<and>
          location ps1 = location ps)"
  by (auto simp: parseForm_endValue_def asError_def Let_def split: option.splits)

lemma parseForm_step_cases:
  assumes "parseFormState (state ps)"
  shows "(\<exists>r. parseForm_step am flds feu esc ps = Return r \<and>
            command r = command ps \<and> binding r = binding ps \<and> form r = form ps \<and>
            location r = location ps) \<or>
         (\<exists>feu1 esc1 ps1. parseForm_step am flds feu esc ps = Next feu1 esc1 ps1 \<and>
            parseFormState (state ps1) \<and>
            command ps1 = command ps \<and> binding ps1 = binding ps \<and> form ps1 = form ps \<and>
            location ps1 = location ps)"
proof (cases "state ps")
  case EndValue
  with parseForm_endValue_cases[of am feu esc "charAt (command ps) (i ps)" ps]
  show ?thesis by (auto simp: parseForm_step_def parseFormState_def)
next
  case EndQuotedValue
  with parseForm_endValue_cases[of am feu esc "charAt (command ps) (i ps)" ps]
  show ?thesis by (auto simp: parseForm_step_def parseFormState_def)
next
  case EndTickedValue
  with parseForm_endValue_cases[of am feu esc "charAt (command ps) (i ps)" ps]
  show ?thesis by (auto simp: parseForm_step_def parseFormState_def)
next
  case StartParameter
  then show ?thesis
    by (auto simp: parseForm_step_def parseFormState_def asError_def Let_def split: option.splits)
next
  case ParameterSeparator
  then show ?thesis by (auto simp: parseForm_step_def parseFormState_def asError_def Let_def)
next
  case Flag1
  then show ?thesis by (auto simp: parseForm_step_def parseFormState_def asError_def Let_def)
next
  case Flag
  then show ?thesis
    by (auto simp: parseForm_step_def parseFormState_def asError_def Let_def split: option.splits)
next
  case FlagValueSeparator
  then show ?thesis by (auto simp: parseForm_step_def parseFormState_def asError_def Let_def)
next
  case StartValue
  then show ?thesis by (auto simp: parseForm_step_def parseFormState_def asError_def Let_def)
next
  case NonspaceValue
  then show ?thesis by (auto simp: parseForm_step_def parseFormState_def asError_def Let_def)
next
  case QuotedValue
  then show ?thesis by (auto simp: parseForm_step_def parseFormState_def asError_def Let_def)
next
  case TickValue
  then show ?thesis by (auto simp: parseForm_step_def parseFormState_def asError_def Let_def)
qed (use assms in \<open>simp_all add: parseFormState_def\<close>)


lemma parseForm_loop_returns:
  assumes "parseFormState (state ps)"
  shows "\<exists>r. parseForm_loop am flds feu esc ps = Some r \<and>
             command r = command ps \<and> binding r = binding ps \<and> form r = form ps \<and>
             location r = location ps"
  using assms
proof (induction am flds feu esc ps rule: parseForm_loop.induct)
  case (1 am flds feu esc ps)
  from parseForm_step_cases[OF "1.prems", of am flds feu esc]
  consider (ret) r where "parseForm_step am flds feu esc ps = Return r"
        "command r = command ps" "binding r = binding ps" "form r = form ps"
        "location r = location ps"
    | (nxt) feu1 esc1 ps1 where "parseForm_step am flds feu esc ps = Next feu1 esc1 ps1"
        "parseFormState (state ps1)" "command ps1 = command ps" "binding ps1 = binding ps"
        "form ps1 = form ps" "location ps1 = location ps"
    by blast
  then show ?case
  proof cases
    case ret
    then show ?thesis by (subst parseForm_loop.simps) simp
  next
    case nxt
    from "1.IH"[OF nxt(1) nxt(2)] nxt show ?thesis
      by (subst parseForm_loop.simps) simp
  qed
qed


lemma parseForm_returns:
  "\<exists>r. parseForm am ps = Some r \<and> command r = command ps \<and> binding r = binding ps \<and>
       form r = form ps \<and> location r = location ps"
proof (cases "state ps = Error \<or> form ps = None")
  case True
  then show ?thesis by (auto simp: parseForm_def)
next
  case False
  then obtain frm where frm: "form ps = Some frm" by auto
  have "parseFormState (state (ps\<lparr> state := StartParameter, i := incompleteStart ps \<rparr>))"
    by (simp add: parseFormState_def)
  from parseForm_loop_returns[OF this] False frm show ?thesis
    by (simp add: parseForm_def)
qed

section \<open>C5: input that does not start with a slash\<close>

text \<open>
  C5, as stated, fails for the empty binding list: \<open>matchBinding\<close> tests the list first
  and returns the ``no command bindings'' error before it looks at the input.
\<close>

theorem matchBinding_no_slash_empty_bindings:
  "\<not> startsWith ''cmd arg'' ''/'' \<and>
   state (fst (matchBinding (exampleStore []) [] False (new_ParsedCommand ''cmd arg'')
                 exampleParser)) = Error \<and>
   error (fst (matchBinding (exampleStore []) [] False (new_ParsedCommand ''cmd arg'')
                 exampleParser)) = Some no_bindings \<and>
   error (fst (matchBinding (exampleStore []) [] False (new_ParsedCommand ''cmd arg'')
                 exampleParser)) \<noteq> Some no_slash_start"
  by (simp add: startsWith_def matchBinding_def asError_def)

text \<open>
  C5 (amended): for every input string that does not start with \<^verbatim>\<open>/\<close>, in either mode
  and for every non-empty binding list, \<open>matchBinding\<close> on a fresh \<open>ParsedCommand\<close>
  returns it in the \<open>Error\<close> state with the ``must start with /'' message; nothing else
  of the command or of the parser object changes.
\<close>

theorem matchBinding_no_slash:
  assumes "commandBindings \<noteq> []" and "\<not> startsWith cmd ''/''"
  shows "matchBinding store commandBindings autocompleteMode (new_ParsedCommand cmd) parser
           = (asError no_slash_start (new_ParsedCommand cmd), parser)"
proof -
  have "charAt cmd 0 \<noteq> ''/''"
    using assms(2) by (simp add: charAt_0 startsWith_def)
  then have "matchBinding_loop autocompleteMode commandBindings (new_ParsedCommand cmd)
               = Inl (asError no_slash_start (new_ParsedCommand cmd))"
    by (subst matchBinding_loop.simps) (simp add: matchBinding_step_def new_ParsedCommand_def)
  with assms(1) show ?thesis by (simp add: matchBinding_def)
qed

theorem matchBinding_no_slash_witness:
  "[exampleBinding ''cmd'' (Some exampleForm)] \<noteq> [] \<and> \<not> startsWith ''cmd arg'' ''/'' \<and>
   state (fst (matchBinding (exampleStore []) [exampleBinding ''cmd'' (Some exampleForm)] True
                 (new_ParsedCommand ''cmd arg'') exampleParser)) = Error \<and>
   error (fst (matchBinding (exampleStore []) [exampleBinding ''cmd'' (Some exampleForm)] True
                 (new_ParsedCommand ''cmd arg'') exampleParser)) = Some no_slash_start"
  using matchBinding_no_slash [of "[exampleBinding ''cmd'' (Some exampleForm)]" "''cmd arg''"
          "exampleStore []" True exampleParser]
  by (simp add: startsWith_def asError_def)

section \<open>C9: isAppCommand\<close>

lemma isAppCommand_loop_iff:
  "isAppCommand_loop cmd bs \<longleftrightarrow>
     (\<exists>b \<in> set bs. b_label b \<noteq> [] \<and> startsWith cmd (commandBase b @ '' ''))"
  by (induction bs) auto

text \<open>
  C9, as stated, fails for a binding whose label is empty: the loop skips it
  (\<^verbatim>\<open>if (!base) continue\<close>), although the lowercased pretext \<^verbatim>\<open>/ x\<close> starts with the
  label prefixed by a slash and followed by a space.
\<close>

theorem isAppCommand_empty_label:
  "\<not> isAppCommand (exampleStore [exampleBinding [] None]) ''/ x'' \<and>
   exampleBinding [] None \<in> set (getCommandBindings (exampleStore [exampleBinding [] None])) \<and>
   startsWith (toLowerCase ''/ x'') (commandBase (exampleBinding [] None) @ '' '')"
  by (simp add: isAppCommand_def getCommandBindings_def exampleStore_def exampleBinding_def
        commandBase_def startsWith_def toLowerCase_def)

text \<open>
  C9 (amended): for every pretext and every list of top-level bindings,
  \<open>isAppCommand\<close> is true if and only if the lowercased pretext starts with the label
  of some top-level binding with a non-empty label (prefixed with a slash if the label has
  none), followed by a space.
\<close>

theorem isAppCommand_iff:
  "isAppCommand store pretext \<longleftrightarrow>
     (\<exists>b \<in> set (getCommandBindings store).
        b_label b \<noteq> [] \<and> startsWith (toLowerCase pretext) (commandBase b @ '' ''))"
  by (simp add: isAppCommand_def isAppCommand_loop_iff)

theorem isAppCommand_iff_witness:
  "isAppCommand (exampleStore [exampleBinding ''cmd'' None]) ''/CMD x'' \<and>
   \<not> isAppCommand (exampleStore [exampleBinding ''cmd'' None]) ''/cmd''"
  using isAppCommand_iff [of "exampleStore [exampleBinding ''cmd'' None]" "''/CMD x''"]
        isAppCommand_iff [of "exampleStore [exampleBinding ''cmd'' None]" "''/cmd''"]
  by (simp add: getCommandBindings_def exampleStore_def exampleBinding_def commandBase_def
        startsWith_def toLowerCase_def)

section \<open>C7: the form cache\<close>

lemma getForm_cached:
  assumes "forms parser loc = Some frm"
  shows "getForm store loc b parser = (Some \<lparr> fr_form = Some frm, fr_error = None \<rparr>, parser)"
  using assms by (simp add: getForm_def)

lemma getForm_inherited:
  assumes "forms parser loc = None" and "loc \<in> set objectPrototypeNames"
  shows "getForm store loc b parser
           = (Some \<lparr> fr_form = Some (inheritedForm loc), fr_error = None \<rparr>, parser)"
  using assms by (simp add: getForm_def)

lemma fetchForm_effect:
  assumes "fetchForm store b parser = (fetched, parser1)"
  shows "fetchLog parser1 = fetchLog parser @ [b] \<and> forms parser1 = forms parser"
  using assms
  by (auto simp: fetchForm_def Let_def
           split: option.splits DoAppCallResult.splits AppCallResponseTypes.splits)

text \<open>
  Where there is no entry to read, \<open>getForm\<close> is one call of \<open>fetchForm\<close>, whose
  result it returns; the form in it, if any, is stored under the location.
\<close>

lemma getForm_fetches:
  assumes "forms parser loc = None" and "loc \<notin> set objectPrototypeNames"
    and "fetchForm store b parser = (fetched, parserF)"
  shows "getForm store loc b parser =
           (fetched,
            case Option.bind fetched fr_form of
              None \<Rightarrow> parserF
            | Some frm \<Rightarrow> parserF\<lparr> forms := (forms parser)(loc \<mapsto> frm) \<rparr>)"
  using assms fetchForm_effect[OF assms(3)]
  by (auto simp: getForm_def split: option.splits)

lemma getForm_forms:
  "forms (snd (getForm store loc b parser)) = forms parser \<or>
   (forms parser loc = None \<and>
    (\<exists>frm. forms (snd (getForm store loc b parser)) = (forms parser)(loc \<mapsto> frm)))"
proof (cases "forms parser loc")
  case None
  show ?thesis
  proof (cases "loc \<in> set objectPrototypeNames")
    case True
    with None show ?thesis by (simp add: getForm_inherited)
  next
    case False
    obtain r p where f: "fetchForm store b parser = (r, p)" by (cases "fetchForm store b parser")
    from getForm_fetches[OF None False f] fetchForm_effect[OF f] None show ?thesis
      by (cases "Option.bind r fr_form") auto
  qed
next
  case (Some frm)
  then show ?thesis by (simp add: getForm_cached)
qed

lemma getForm_session_keeps:
  "forms parser loc = Some frm \<Longrightarrow> forms (getForm_session store reqs parser) loc = Some frm"
proof (induction reqs arbitrary: parser)
  case Nil
  then show ?case by (simp add: getForm_session_def)
next
  case (Cons req reqs)
  obtain l b where req: "req = (l, b)" by (cases req)
  have "forms (snd (getForm store l b parser)) loc = Some frm"
    using getForm_forms[of store l b parser] Cons.prems by auto
  from Cons.IH[OF this] show ?case by (simp add: getForm_session_def req)
qed

lemma getForm_session_other:
  "forms parser loc = None \<Longrightarrow> loc \<notin> fst ` set reqs \<Longrightarrow>
   forms (getForm_session store reqs parser) loc = None"
proof (induction reqs arbitrary: parser)
  case Nil
  then show ?case by (simp add: getForm_session_def)
next
  case (Cons req reqs)
  obtain l b where req: "req = (l, b)" by (cases req)
  have "forms (snd (getForm store l b parser)) loc = None"
    using getForm_forms[of store l b parser] Cons.prems req by auto
  from Cons.IH[OF this] Cons.prems(2) show ?case by (simp add: getForm_session_def req)
qed

text \<open>
  C7: let \<open>(fetched, parserF)\<close> be what the external fetch \<open>fetchForm\<close> gives for
  the binding on the current parser object. For every location:
  \<^item> where the cache holds a form for the location, \<open>getForm\<close> returns that form and
    leaves the parser object as it is, so no fetch is performed (the fetch log and the
    count of remote calls are part of the object);
  \<^item> where the cache holds nothing and the location is no member name of
    \<^verbatim>\<open>Object.prototype\<close>, \<open>getForm\<close> performs the fetch and returns its result; if the
    result carries a form, exactly that form is stored under the location, and from then on
    every call for the location, after any other calls on the object, returns it with no
    fetch; if the result carries an error or no form, the cache is left unchanged, and the
    next call for the location, after any calls for other locations, performs the fetch
    again and returns what that fetch gives;
  \<^item> where the cache holds nothing and the location is a member name of
    \<^verbatim>\<open>Object.prototype\<close>, the read gives the inherited member: nothing is fetched and
    nothing is stored.
\<close>

theorem getForm_memoizes:
  assumes "fetchForm store b parser = (fetched, parserF)"
  shows "(\<forall>frm. forms parser loc = Some frm \<longrightarrow>
            getForm store loc b parser
              = (Some \<lparr> fr_form = Some frm, fr_error = None \<rparr>, parser)) \<and>
         (\<forall>frm. forms parser loc = None \<and> loc \<notin> set objectPrototypeNames \<and>
                Option.bind fetched fr_form = Some frm \<longrightarrow>
            getForm store loc b parser
              = (fetched, parserF\<lparr> forms := (forms parser)(loc \<mapsto> frm) \<rparr>) \<and>
            fetchLog parserF = fetchLog parser @ [b] \<and>
            (\<forall>reqs b2.
               getForm store loc b2
                   (getForm_session store reqs
                      (parserF\<lparr> forms := (forms parser)(loc \<mapsto> frm) \<rparr>))
                 = (Some \<lparr> fr_form = Some frm, fr_error = None \<rparr>,
                    getForm_session store reqs
                      (parserF\<lparr> forms := (forms parser)(loc \<mapsto> frm) \<rparr>)))) \<and>
         (forms parser loc = None \<and> loc \<notin> set objectPrototypeNames \<and>
          Option.bind fetched fr_form = None \<longrightarrow>
            getForm store loc b parser = (fetched, parserF) \<and>
            forms parserF = forms parser \<and>
            fetchLog parserF = fetchLog parser @ [b] \<and>
            (\<forall>reqs b2. loc \<notin> fst ` set reqs \<longrightarrow>
               fst (getForm store loc b2 (getForm_session store reqs parserF))
                 = fst (fetchForm store b2 (getForm_session store reqs parserF)) \<and>
               fetchLog (snd (getForm store loc b2 (getForm_session store reqs parserF)))
                 = fetchLog (getForm_session store reqs parserF) @ [b2])) \<and>
         (forms parser loc = None \<and> loc \<in> set objectPrototypeNames \<longrightarrow>
            getForm store loc b parser
              = (Some \<lparr> fr_form = Some (inheritedForm loc), fr_error = None \<rparr>, parser))"
proof (intro conjI allI impI)
  fix frm assume "forms parser loc = Some frm"
  then show "getForm store loc b parser
               = (Some \<lparr> fr_form = Some frm, fr_error = None \<rparr>, parser)"
    by (rule getForm_cached)
next
  fix frm
  assume a: "forms parser loc = None \<and> loc \<notin> set objectPrototypeNames \<and>
             Option.bind fetched fr_form = Some frm"
  let ?p1 = "parserF\<lparr> forms := (forms parser)(loc \<mapsto> frm) \<rparr>"
  from a getForm_fetches[OF _ _ assms, of loc]
  show "getForm store loc b parser = (fetched, ?p1)" by simp
  from fetchForm_effect[OF assms] show "fetchLog parserF = fetchLog parser @ [b]" by simp
  fix reqs b2
  have "forms ?p1 loc = Some frm" by simp
  from getForm_cached[OF getForm_session_keeps[OF this]]
  show "getForm store loc b2 (getForm_session store reqs ?p1)
          = (Some \<lparr> fr_form = Some frm, fr_error = None \<rparr>, getForm_session store reqs ?p1)" .
next
  assume a: "forms parser loc = None \<and> loc \<notin> set objectPrototypeNames \<and>
             Option.bind fetched fr_form = None"
  from a getForm_fetches[OF _ _ assms, of loc]
  show "getForm store loc b parser = (fetched, parserF)" by simp
  from fetchForm_effect[OF assms] show same: "forms parserF = forms parser"
    and "fetchLog parserF = fetchLog parser @ [b]" by simp_all
  fix reqs :: "(string \<times> AppBinding) list" and b2 assume "loc \<notin> fst ` set reqs"
  with same a have none: "forms (getForm_session store reqs parserF) loc = None"
    by (simp add: getForm_session_other)
  obtain r p where f: "fetchForm store b2 (getForm_session store reqs parserF) = (r, p)"
    by (cases "fetchForm store b2 (getForm_session store reqs parserF)")
  from a have "loc \<notin> set objectPrototypeNames" by simp
  from getForm_fetches[OF none this f] fetchForm_effect[OF f]
  show "fst (getForm store loc b2 (getForm_session store reqs parserF))
          = fst (fetchForm store b2 (getForm_session store reqs parserF))"
    and "fetchLog (snd (getForm store loc b2 (getForm_session store reqs parserF)))
          = fetchLog (getForm_session store reqs parserF) @ [b2]"
    by (simp_all add: f split: option.splits)
next
  assume "forms parser loc = None \<and> loc \<in> set objectPrototypeNames"
  then show "getForm store loc b parser
               = (Some \<lparr> fr_form = Some (inheritedForm loc), fr_error = None \<rparr>, parser)"
    by (simp add: getForm_inherited)
qed

text \<open>
  A session on one parser object whose first remote call fails and whose second answers
  with a form: the first \<open>getForm\<close> returns the error and stores nothing, the second
  fetches again, returns the fetched form and stores it, the third returns the stored form
  and leaves the object (fetch log included) as it is.
\<close>

theorem getForm_memoizes_witness:
  "getForm retryStore ''/remote'' remoteBinding exampleParser
     = (Some \<lparr> fr_form = None, fr_error = Some unknown_error \<rparr>,
        exampleParser\<lparr> dispatched := 1, fetchLog := [remoteBinding] \<rparr>) \<and>
   forms (exampleParser\<lparr> dispatched := 1, fetchLog := [remoteBinding] \<rparr>) ''/remote'' = None \<and>
   getForm retryStore ''/remote'' remoteBinding
       (exampleParser\<lparr> dispatched := 1, fetchLog := [remoteBinding] \<rparr>)
     = (Some \<lparr> fr_form = Some exampleForm, fr_error = None \<rparr>,
        exampleParser\<lparr> dispatched := 2, fetchLog := [remoteBinding, remoteBinding],
                        forms := [''/remote'' \<mapsto> exampleForm] \<rparr>) \<and>
   getForm retryStore ''/remote'' remoteBinding
       (exampleParser\<lparr> dispatched := 2, fetchLog := [remoteBinding, remoteBinding],
                        forms := [''/remote'' \<mapsto> exampleForm] \<rparr>)
     = (Some \<lparr> fr_form = Some exampleForm, fr_error = None \<rparr>,
        exampleParser\<lparr> dispatched := 2, fetchLog := [remoteBinding, remoteBinding],
                        forms := [''/remote'' \<mapsto> exampleForm] \<rparr>)"
proof -
  let ?A = "exampleParser\<lparr> dispatched := 1, fetchLog := [remoteBinding] \<rparr>"
  let ?F = "exampleParser\<lparr> dispatched := 2, fetchLog := [remoteBinding, remoteBinding] \<rparr>"
  have names: "''/remote'' \<notin> set objectPrototypeNames"
    by (simp add: objectPrototypeNames_def)
  have f1: "fetchForm retryStore remoteBinding exampleParser
              = (Some \<lparr> fr_form = None, fr_error = Some unknown_error \<rparr>, ?A)"
    by (simp add: fetchForm_def retryStore_def exampleStore_def remoteBinding_def
          exampleParser_def new_AppCommandParser_def Let_def createCallRequest_def)
  have f2: "fetchForm retryStore remoteBinding ?A
              = (Some \<lparr> fr_form = Some exampleForm, fr_error = None \<rparr>, ?F)"
    by (simp add: fetchForm_def retryStore_def exampleStore_def remoteBinding_def
          exampleParser_def new_AppCommandParser_def Let_def createCallRequest_def)
  have e: "forms exampleParser = Map.empty" "forms ?A = Map.empty"
    by (simp_all add: exampleParser_def new_AppCommandParser_def)
  have first: "getForm retryStore ''/remote'' remoteBinding exampleParser
                 = (Some \<lparr> fr_form = None, fr_error = Some unknown_error \<rparr>, ?A)"
    using getForm_memoizes [OF f1, of "''/remote''"] names e by simp
  have second: "getForm retryStore ''/remote'' remoteBinding ?A
       = (Some \<lparr> fr_form = Some exampleForm, fr_error = None \<rparr>,
          ?F\<lparr> forms := [''/remote'' \<mapsto> exampleForm] \<rparr>)"
    and third: "getForm retryStore ''/remote'' remoteBinding
         (getForm_session retryStore [] (?F\<lparr> forms := [''/remote'' \<mapsto> exampleForm] \<rparr>))
       = (Some \<lparr> fr_form = Some exampleForm, fr_error = None \<rparr>,
          getForm_session retryStore [] (?F\<lparr> forms := [''/remote'' \<mapsto> exampleForm] \<rparr>))"
    using getForm_memoizes [OF f2, of "''/remote''"] names e by simp_all
  from first second third e show ?thesis
    by (simp add: getForm_session_def)
qed

section \<open>C8: missing required fields\<close>

lemma addDefaultAndReadOnlyValues_form:
  "form (addDefaultAndReadOnlyValues store parsed) = form parsed"
  by (simp add: addDefaultAndReadOnlyValues_def split: option.splits)

text \<open>
  What the code does establish: the parse in complete mode always returns; if it did not
  end in \<open>Error\<close> and, after the default and read-only values were added, the read of
  \<^verbatim>\<open>values[field.name]\<close> is falsy for some required field of the form, then
  \<open>composeCallFromCommand\<close> returns no call and the message ``Required fields missing''
  with the labels of the required fields whose read is falsy, joined by a comma and a
  space.
\<close>

lemma composeCallFromCommand_reports_falsy:
  "\<exists>parsed. parseForm False (fst (matchBinding store (getCommandBindings store) False
                                    (new_ParsedCommand cmd) parser)) = Some parsed \<and>
     (\<forall>frm. state parsed \<noteq> Error \<and> form parsed = Some frm \<and>
        (\<exists>fld \<in> set (form_fields frm).
           f_is_required fld \<and>
           \<not> truthy (getProperty (values (addDefaultAndReadOnlyValues store parsed))
                       (f_name fld))) \<longrightarrow>
        composeCallFromCommand store parser cmd =
          Some (\<lparr> call = None,
            errorMessage =
              Some (''Required fields missing: `''
                    @ join '', ''
                        (map (\<lambda>fld. orEmpty (f_label fld))
                           (filter (\<lambda>fld. f_is_required fld \<and>
                                      \<not> truthy (getProperty
                                                  (values (addDefaultAndReadOnlyValues store
                                                             parsed))
                                                  (f_name fld)))
                              (form_fields frm)))
                    @ ''`.'') \<rparr>,
                snd (matchBinding store (getCommandBindings store) False
                       (new_ParsedCommand cmd) parser)))"
proof -
  obtain parsed1 parser1 where mb:
    "matchBinding store (getCommandBindings store) False (new_ParsedCommand cmd) parser
       = (parsed1, parser1)"
    by (cases "matchBinding store (getCommandBindings store) False (new_ParsedCommand cmd) parser")
  from parseForm_returns[of False parsed1]
  obtain parsed where pf: "parseForm False parsed1 = Some parsed" by blast
  show ?thesis
  proof (intro exI[of _ parsed] conjI allI impI)
    show "parseForm False (fst (matchBinding store (getCommandBindings store) False
                                  (new_ParsedCommand cmd) parser)) = Some parsed"
      using mb pf by simp
  next
    fix frm
    let ?p3 = "addDefaultAndReadOnlyValues store parsed"
    assume a: "state parsed \<noteq> Error \<and> form parsed = Some frm \<and>
        (\<exists>fld \<in> set (form_fields frm).
           f_is_required fld \<and> \<not> truthy (getProperty (values ?p3) (f_name fld)))"
    have missing: "getMissingFields ?p3 =
        filter (\<lambda>fld. f_is_required fld \<and> \<not> truthy (getProperty (values ?p3) (f_name fld)))
          (form_fields frm)"
      using a by (simp add: getMissingFields_def addDefaultAndReadOnlyValues_form)
    from a obtain fld where "fld \<in> set (form_fields frm)" "f_is_required fld"
      "\<not> truthy (getProperty (values ?p3) (f_name fld))" by blast
    then have "fld \<in> set (getMissingFields ?p3)"
      unfolding missing by simp
    then have "length (getMissingFields ?p3) > 0" by (cases "getMissingFields ?p3") auto
    then show "composeCallFromCommand store parser cmd =
          Some (\<lparr> call = None,
            errorMessage =
              Some (''Required fields missing: `''
                    @ join '', ''
                        (map (\<lambda>fld. orEmpty (f_label fld))
                           (filter (\<lambda>fld. f_is_required fld \<and>
                                      \<not> truthy (getProperty (values ?p3) (f_name fld)))
                              (form_fields frm)))
                    @ ''`.'') \<rparr>,
                snd (matchBinding store (getCommandBindings store) False
                       (new_ParsedCommand cmd) parser))"
      using mb pf a unfolding missing[symmetric]
      by (simp add: composeCallFromCommand_def Let_def)
  qed
qed

text \<open>
  The example of the specification, with a field name that is no member name of
  \<^verbatim>\<open>Object.prototype\<close>: one required field \<^verbatim>\<open>message\<close>, no value supplied.
\<close>

lemma requiredForm_run:
  "(case parseForm False
           (fst (matchBinding (exampleStore [exampleBinding ''cmd'' (Some requiredForm)])
                   (getCommandBindings (exampleStore [exampleBinding ''cmd'' (Some requiredForm)]))
                   False (new_ParsedCommand ''/cmd'') exampleParser)) of
      None \<Rightarrow> False
    | Some p \<Rightarrow>
        state p \<noteq> Error \<and> form p = Some requiredForm \<and>
        getProperty
          (values (addDefaultAndReadOnlyValues
                     (exampleStore [exampleBinding ''cmd'' (Some requiredForm)]) p)) ''message''
          = None)"
  by code_simp

lemma composeCallFromCommand_reports_message:
  "map_option fst
     (composeCallFromCommand (exampleStore [exampleBinding ''cmd'' (Some requiredForm)])
        exampleParser ''/cmd'')
   = Some \<lparr> call = None, errorMessage = Some ''Required fields missing: `message`.'' \<rparr>"
proof -
  let ?S = "exampleStore [exampleBinding ''cmd'' (Some requiredForm)]"
  from composeCallFromCommand_reports_falsy [of ?S "''/cmd''" exampleParser]
  obtain parsed where
    p: "parseForm False (fst (matchBinding ?S (getCommandBindings ?S) False
                                (new_ParsedCommand ''/cmd'') exampleParser)) = Some parsed"
    and imp: "\<And>frm. state parsed \<noteq> Error \<and> form parsed = Some frm \<and>
        (\<exists>fld \<in> set (form_fields frm).
           f_is_required fld \<and>
           \<not> truthy (getProperty (values (addDefaultAndReadOnlyValues ?S parsed))
                       (f_name fld))) \<Longrightarrow>
        composeCallFromCommand ?S exampleParser ''/cmd'' =
          Some (\<lparr> call = None,
                   errorMessage =
                     Some (''Required fields missing: `''
                           @ join '', ''
                               (map (\<lambda>fld. orEmpty (f_label fld))
                                  (filter (\<lambda>fld. f_is_required fld \<and>
                                             \<not> truthy (getProperty
                                                         (values (addDefaultAndReadOnlyValues
                                                                    ?S parsed))
                                                         (f_name fld)))
                                     (form_fields frm)))
                           @ ''`.'') \<rparr>,
                snd (matchBinding ?S (getCommandBindings ?S) False
                       (new_ParsedCommand ''/cmd'') exampleParser))"
    by blast
  from requiredForm_run p
  have h: "state parsed \<noteq> Error" "form parsed = Some requiredForm"
    "getProperty (values (addDefaultAndReadOnlyValues ?S parsed)) ''message'' = None"
    by simp_all
  from imp[of requiredForm] h show ?thesis
    by (simp add: requiredForm_def exampleField_def truthy_def orEmpty_def)
qed

text \<open>
  C8 fails on the code for a required field whose name is a member name of
  \<^verbatim>\<open>Object.prototype\<close>. The form has one required field named \<^verbatim>\<open>constructor\<close>; the
  command \<^verbatim>\<open>/cmd\<close> supplies no value. The parse ends without error and the values map
  has no entry for the field, before and after the default values are added. Nevertheless
  \<^verbatim>\<open>!values[field.name]\<close> reads the inherited \<^verbatim>\<open>Object.prototype.constructor\<close>, no field
  is reported missing, and \<open>composeCallFromCommand\<close> returns a call (whose values have no
  entry for the field) and no error message.
\<close>

theorem composeCallFromCommand_inherited_name:
  "(case parseForm False
           (fst (matchBinding (exampleStore [exampleBinding ''cmd'' (Some constructorForm)])
                   (getCommandBindings
                      (exampleStore [exampleBinding ''cmd'' (Some constructorForm)]))
                   False (new_ParsedCommand ''/cmd'') exampleParser)) of
      None \<Rightarrow> False
    | Some p \<Rightarrow>
        state p \<noteq> Error \<and> form p = Some constructorForm \<and>
        values p ''constructor'' = None \<and>
        values (addDefaultAndReadOnlyValues
                  (exampleStore [exampleBinding ''cmd'' (Some constructorForm)]) p)
          ''constructor'' = None \<and>
        length (getMissingFields
                  (addDefaultAndReadOnlyValues
                     (exampleStore [exampleBinding ''cmd'' (Some constructorForm)]) p)) = 0) \<and>
   (case composeCallFromCommand (exampleStore [exampleBinding ''cmd'' (Some constructorForm)])
           exampleParser ''/cmd'' of
      None \<Rightarrow> False
    | Some (result, parser1) \<Rightarrow>
        errorMessage result = None \<and>
        (case call result of
           None \<Rightarrow> False
         | Some request \<Rightarrow>
             rq_call request = AppCall ''/submit'' \<and>
             rq_values request ''constructor'' = None))"
  by code_simp

section \<open>C10: flag name suggestions\<close>

text \<open>
  C10, as stated, fails for a field whose recorded value is the empty string: the filter
  tests \<^verbatim>\<open>!parsed.values[field.name]\<close>, which is true for the empty string too. The
  autocomplete parse of \<^verbatim>\<open>/cmd --user "\" --u\<close> records the empty string for
  \<^verbatim>\<open>user\<close> (the quoted value holds one backslash, which is dropped), and the flag
  \<^verbatim>\<open>--user\<close> is suggested again.
\<close>

theorem getFlagNameSuggestions_empty_value:
  "(case parseForm True
           (fst (matchBinding (exampleStore []) [exampleBinding ''cmd'' (Some exampleForm)] True
                   (new_ParsedCommand (''/cmd --user '' @ DQUOTE @ BACKSLASH @ DQUOTE @ '' --u''))
                   exampleParser)) of
      None \<Rightarrow> False
    | Some parsed \<Rightarrow>
        state parsed = Flag \<and> incomplete parsed = ''u'' \<and>
        values parsed ''user'' = Some [] \<and>
        map Suggestion (getFlagNameSuggestions parsed) = [''--user''])"
  by code_simp

text \<open>
  C10 (amended): the flag name suggestions are the images of the applicable fields; a field
  of the form is applicable only if it has a label whose lowercased form starts with the
  lowercased partial token and no value or the empty string is recorded for its name (and
  with no value recorded, only if its name is no member name of \<^verbatim>\<open>Object.prototype\<close>,
  which the test would read instead); a field for whose name a non-empty value is recorded
  is never applicable.
\<close>

theorem getFlagNameSuggestions_applicable:
  assumes "form parsed = Some frm"
  shows "getFlagNameSuggestions parsed =
           map (flagNameSuggestion parsed
                  (flagPrefix_loop (command parsed) (incompleteStart parsed)
                     (int (incompleteStart parsed) - 1) ''--''))
             (applicableFlagFields parsed (form_fields frm)) \<and>
         (\<forall>fld \<in> set (applicableFlagFields parsed (form_fields frm)).
            fld \<in> set (form_fields frm) \<and>
            (\<exists>l. f_label fld = Some l \<and>
                 startsWith (toLowerCase l) (toLowerCase (incomplete parsed))) \<and>
            (values parsed (f_name fld) = None \<or> values parsed (f_name fld) = Some []) \<and>
            (values parsed (f_name fld) = None \<longrightarrow> f_name fld \<notin> set objectPrototypeNames)) \<and>
         (\<forall>fld v. values parsed (f_name fld) = Some v \<and> v \<noteq> [] \<longrightarrow>
            fld \<notin> set (applicableFlagFields parsed (form_fields frm)))"
proof (intro conjI ballI allI impI)
  show "getFlagNameSuggestions parsed =
           map (flagNameSuggestion parsed
                  (flagPrefix_loop (command parsed) (incompleteStart parsed)
                     (int (incompleteStart parsed) - 1) ''--''))
             (applicableFlagFields parsed (form_fields frm))"
    using assms by (simp add: getFlagNameSuggestions_def applicableFlagFields_def)
next
  fix fld assume "fld \<in> set (applicableFlagFields parsed (form_fields frm))"
  then show "fld \<in> set (form_fields frm)"
    "\<exists>l. f_label fld = Some l \<and> startsWith (toLowerCase l) (toLowerCase (incomplete parsed))"
    "values parsed (f_name fld) = None \<or> values parsed (f_name fld) = Some []"
    by (auto simp: applicableFlagFields_def getProperty_def truthy_def
             split: option.splits if_splits)
next
  fix fld assume "fld \<in> set (applicableFlagFields parsed (form_fields frm))"
    and "values parsed (f_name fld) = None"
  then show "f_name fld \<notin> set objectPrototypeNames"
    by (auto simp: applicableFlagFields_def getProperty_def truthy_def)
next
  fix fld :: AppField and v assume "values parsed (f_name fld) = Some v \<and> v \<noteq> []"
  then show "fld \<notin> set (applicableFlagFields parsed (form_fields frm))"
    by (simp add: applicableFlagFields_def getProperty_def truthy_def)
qed

theorem getFlagNameSuggestions_applicable_witness:
  "form flagParsed = Some exampleForm \<and>
   map Suggestion (getFlagNameSuggestions flagParsed) = [''--message'', ''--user''] \<and>
   map Complete (getFlagNameSuggestions flagParsed) = [''message'', ''user''] \<and>
   values flagParsed ''done'' = Some ''true'' \<and>
   exampleField ''done'' BOOL None False
     \<notin> set (applicableFlagFields flagParsed (form_fields exampleForm))"
  using getFlagNameSuggestions_applicable [of flagParsed exampleForm]
  by (simp add: flagParsed_def new_ParsedCommand_def exampleForm_def exampleField_def
        applicableFlagFields_def flagNameSuggestion_def getProperty_def truthy_def
        objectPrototypeNames_def startsWith_def toLowerCase_def orElse_def charAt_def)

section \<open>C6: the placeholder suggestion\<close>

text \<open>
  C6, as stated, fails while a user (or channel) reference is being typed: for
  \<^verbatim>\<open>/cmd --user bo\<close> nothing is collected, the command cannot be executed yet (the
  value is not recorded), and the placeholder is withheld because the current field is a
  user field. The list is empty.
\<close>

theorem getSuggestions_user_field_empty:
  "map_option fst
     (getSuggestions (exampleStore [exampleBinding ''cmd'' (Some exampleForm)]) exampleParser
        ''/cmd --user bo'') = Some []"
  by code_simp

lemma collectSuggestions_returns:
  "\<exists>parsed suggestions parser1.
     collectSuggestions store parser pretext = Some (parsed, suggestions, parser1)"
proof -
  obtain parsed1 parser1 where mb:
    "matchBinding store (getCommandBindings store) True (new_ParsedCommand pretext) parser
       = (parsed1, parser1)"
    by (cases "matchBinding store (getCommandBindings store) True (new_ParsedCommand pretext)
                 parser")
  from parseForm_returns[of True parsed1]
  obtain parsed2 where pf: "parseForm True parsed1 = Some parsed2" by blast
  obtain a b c where gp: "getParameterSuggestions store parser1 parsed2 = (a, b, c)"
    by (cases "getParameterSuggestions store parser1 parsed2")
  show ?thesis
    using mb pf gp by (simp add: collectSuggestions_def Let_def)
qed

lemma decorate_placeholder:
  "map (decorateSuggestionComplete store parsed) getNoMatchingSuggestion =
     [\<lparr> Complete = drop 1 (take (incompleteStart parsed - 1) (command parsed)),
        Suggestion = [], Description = [], Hint = ''No matching suggestions.'',
        IconData = ''error'' \<rparr>]"
  by (simp add: getNoMatchingSuggestion_def decorateSuggestionComplete_def)

text \<open>
  C6 (amended): \<open>getSuggestions\<close> always returns. Whenever no error, sub-command or
  parameter suggestion was collected, the execute branch is not taken and the current field
  is not a user or channel field, it returns exactly one ``No matching suggestions.''
  placeholder (completed like every suggestion). The list is empty only when nothing was
  collected and either the current field is a user or channel field, or the execute branch
  was taken and \<^verbatim>\<open>getExecuteSuggestion\<close> gave nothing.
\<close>

theorem getSuggestions_placeholder:
  "\<exists>parsed suggestions parser1.
     collectSuggestions store parser pretext = Some (parsed, suggestions, parser1) \<and>
     getSuggestions store parser pretext
       = Some (finishSuggestions store parsed suggestions, parser1) \<and>
     (suggestions = [] \<and> \<not> canExecute parsed \<and>
      map_option f_type (field parsed) \<noteq> Some USER \<and>
      map_option f_type (field parsed) \<noteq> Some CHANNEL \<longrightarrow>
        finishSuggestions store parsed suggestions =
          [\<lparr> Complete = drop 1 (take (incompleteStart parsed - 1) (command parsed)),
             Suggestion = [], Description = [], Hint = ''No matching suggestions.'',
             IconData = ''error'' \<rparr>]) \<and>
     (finishSuggestions store parsed suggestions = [] \<longrightarrow>
        suggestions = [] \<and>
        (map_option f_type (field parsed) = Some USER \<or>
         map_option f_type (field parsed) = Some CHANNEL \<or>
         (canExecute parsed \<and> getExecuteSuggestion store parsed = None)))"
proof -
  from collectSuggestions_returns[of store parser pretext]
  obtain parsed suggestions parser1 where
    c: "collectSuggestions store parser pretext = Some (parsed, suggestions, parser1)"
    by blast
  have g: "getSuggestions store parser pretext
             = Some (finishSuggestions store parsed suggestions, parser1)"
    using c by (simp add: getSuggestions_def)
  have p: "suggestions = [] \<and> \<not> canExecute parsed \<and>
      map_option f_type (field parsed) \<noteq> Some USER \<and>
      map_option f_type (field parsed) \<noteq> Some CHANNEL \<longrightarrow>
        finishSuggestions store parsed suggestions =
          [\<lparr> Complete = drop 1 (take (incompleteStart parsed - 1) (command parsed)),
             Suggestion = [], Description = [], Hint = ''No matching suggestions.'',
             IconData = ''error'' \<rparr>]"
    using decorate_placeholder[of store parsed] by (simp add: finishSuggestions_def)
  have e: "finishSuggestions store parsed suggestions = [] \<longrightarrow>
        suggestions = [] \<and>
        (map_option f_type (field parsed) = Some USER \<or>
         map_option f_type (field parsed) = Some CHANNEL \<or>
         (canExecute parsed \<and> getExecuteSuggestion store parsed = None))"
    by (auto simp: finishSuggestions_def getNoMatchingSuggestion_def
             split: if_splits option.splits)
  from c g p e show ?thesis by blast
qed

lemma unknown_flag_prefix_run:
  "(case collectSuggestions (exampleStore [exampleBinding ''cmd'' (Some exampleForm)])
           exampleParser ''/cmd --x'' of
      None \<Rightarrow> False
    | Some (parsed, suggestions, parser1) \<Rightarrow>
        suggestions = [] \<and> \<not> canExecute parsed \<and> field parsed = None \<and>
        incompleteStart parsed = 7 \<and> command parsed = ''/cmd --x'')"
  by code_simp

theorem getSuggestions_placeholder_witness:
  "map_option fst
     (getSuggestions (exampleStore [exampleBinding ''cmd'' (Some exampleForm)]) exampleParser
        ''/cmd --x'')
   = Some [\<lparr> Complete = ''cmd -'', Suggestion = [], Description = [],
              Hint = ''No matching suggestions.'', IconData = ''error'' \<rparr>]"
proof -
  let ?S = "exampleStore [exampleBinding ''cmd'' (Some exampleForm)]"
  from getSuggestions_placeholder [of ?S exampleParser "''/cmd --x''"]
  obtain parsed suggestions parser1 where
    c: "collectSuggestions ?S exampleParser ''/cmd --x'' = Some (parsed, suggestions, parser1)"
    and g: "getSuggestions ?S exampleParser ''/cmd --x''
              = Some (finishSuggestions ?S parsed suggestions, parser1)"
    and p: "suggestions = [] \<and> \<not> canExecute parsed \<and>
      map_option f_type (field parsed) \<noteq> Some USER \<and>
      map_option f_type (field parsed) \<noteq> Some CHANNEL \<longrightarrow>
        finishSuggestions ?S parsed suggestions =
          [\<lparr> Complete = drop 1 (take (incompleteStart parsed - 1) (command parsed)),
             Suggestion = [], Description = [], Hint = ''No matching suggestions.'',
             IconData = ''error'' \<rparr>]"
    by blast
  from unknown_flag_prefix_run c
  have h: "suggestions = []" "\<not> canExecute parsed" "field parsed = None"
    "incompleteStart parsed = 7" "command parsed = ''/cmd --x''"
    by simp_all
  from p h g show ?thesis by simp
qed

section \<open>C4: unterminated quote or tick\<close>

text \<open>
  Inside a quoted value with no closing quote ahead, the loop runs to the end of the
  input; a backslash is consumed and dropped, every other character is appended. Inside
  a ticked value every character is appended.
\<close>

lemma quoted_scan:
  assumes "state ps = QuotedValue" and "CHR 0x22 \<notin> set (drop (i ps) (command ps))"
    and "i ps \<le> length (command ps)"
  shows "parseForm_loop am flds feu esc ps =
           Some (if am
                 then ps\<lparr> incomplete := incomplete ps
                                           @ filter (\<lambda>ch. ch \<noteq> CHR 0x5C) (drop (i ps) (command ps)),
                          i := length (command ps) \<rparr>
                 else asError missing_quote
                        (ps\<lparr> incomplete := incomplete ps
                                           @ filter (\<lambda>ch. ch \<noteq> CHR 0x5C) (drop (i ps) (command ps)),
                             i := length (command ps) \<rparr>))"
  using assms
proof (induction "length (command ps) - i ps" arbitrary: ps esc)
  case 0
  then have e: "i ps = length (command ps)" by simp
  then have "parseForm_step am flds feu esc ps =
               (if \<not> am then Return (asError missing_quote ps) else Return ps)"
    using "0.prems"(1) by (simp add: parseForm_step_def charAt_end)
  then show ?case
    using e by (subst parseForm_loop.simps) (simp add: asError_def)
next
  case (Suc n)
  then have lt: "i ps < length (command ps)" by simp
  note cd = charAt_Suc_drop[OF lt]
  from cd Suc.prems(2) have nq: "command ps ! i ps \<noteq> CHR 0x22"
    and rest: "CHR 0x22 \<notin> set (drop (Suc (i ps)) (command ps))" by auto
  show ?case
  proof (cases "command ps ! i ps = CHR 0x5C")
    case True
    let ?ps1 = "ps\<lparr> i := i ps + 1 \<rparr>"
    have step: "parseForm_step am flds feu esc ps = Next feu True ?ps1"
      using Suc.prems(1) cd nq True by (simp add: parseForm_step_def)
    have "parseForm_loop am flds feu True ?ps1 = Some (if am
                 then ?ps1\<lparr> incomplete := incomplete ?ps1
                                           @ filter (\<lambda>ch. ch \<noteq> CHR 0x5C) (drop (i ?ps1) (command ?ps1)),
                          i := length (command ?ps1) \<rparr>
                 else asError missing_quote
                        (?ps1\<lparr> incomplete := incomplete ?ps1
                                           @ filter (\<lambda>ch. ch \<noteq> CHR 0x5C) (drop (i ?ps1) (command ?ps1)),
                             i := length (command ?ps1) \<rparr>))"
      using Suc.hyps(2) Suc.prems(1) rest lt by (intro Suc.hyps(1)) simp_all
    then show ?thesis
      using step cd True by (subst parseForm_loop.simps) simp
  next
    case False
    let ?ps1 = "ps\<lparr> incomplete := incomplete ps @ [command ps ! i ps], i := i ps + 1 \<rparr>"
    have step: "parseForm_step am flds feu esc ps = Next feu False ?ps1"
      using Suc.prems(1) cd nq False by (simp add: parseForm_step_def)
    have "parseForm_loop am flds feu False ?ps1 = Some (if am
                 then ?ps1\<lparr> incomplete := incomplete ?ps1
                                           @ filter (\<lambda>ch. ch \<noteq> CHR 0x5C) (drop (i ?ps1) (command ?ps1)),
                          i := length (command ?ps1) \<rparr>
                 else asError missing_quote
                        (?ps1\<lparr> incomplete := incomplete ?ps1
                                           @ filter (\<lambda>ch. ch \<noteq> CHR 0x5C) (drop (i ?ps1) (command ?ps1)),
                             i := length (command ?ps1) \<rparr>))"
      using Suc.hyps(2) Suc.prems(1) rest lt by (intro Suc.hyps(1)) simp_all
    then show ?thesis
      using step cd False by (subst parseForm_loop.simps) simp
  qed
qed


lemma tick_scan:
  assumes "state ps = TickValue" and "CHR 0x60 \<notin> set (drop (i ps) (command ps))"
    and "i ps \<le> length (command ps)"
  shows "parseForm_loop am flds feu esc ps =
           Some (if am
                 then ps\<lparr> incomplete := incomplete ps @ drop (i ps) (command ps),
                          i := length (command ps) \<rparr>
                 else asError missing_tick
                        (ps\<lparr> incomplete := incomplete ps @ drop (i ps) (command ps),
                             i := length (command ps) \<rparr>))"
  using assms
proof (induction "length (command ps) - i ps" arbitrary: ps)
  case 0
  then have e: "i ps = length (command ps)" by simp
  then have "parseForm_step am flds feu esc ps =
               (if \<not> am then Return (asError missing_tick ps) else Return ps)"
    using "0.prems"(1) by (simp add: parseForm_step_def charAt_end)
  then show ?case
    using e by (subst parseForm_loop.simps) (simp add: asError_def)
next
  case (Suc n)
  then have lt: "i ps < length (command ps)" by simp
  note cd = charAt_Suc_drop[OF lt]
  from cd Suc.prems(2) have nq: "command ps ! i ps \<noteq> CHR 0x60"
    and rest: "CHR 0x60 \<notin> set (drop (Suc (i ps)) (command ps))" by auto
  let ?ps1 = "ps\<lparr> incomplete := incomplete ps @ [command ps ! i ps], i := i ps + 1 \<rparr>"
  have step: "parseForm_step am flds feu esc ps = Next feu esc ?ps1"
    using Suc.prems(1) cd nq by (simp add: parseForm_step_def)
  have "parseForm_loop am flds feu esc ?ps1 = Some (if am
               then ?ps1\<lparr> incomplete := incomplete ?ps1 @ drop (i ?ps1) (command ?ps1),
                        i := length (command ?ps1) \<rparr>
               else asError missing_tick
                      (?ps1\<lparr> incomplete := incomplete ?ps1 @ drop (i ?ps1) (command ?ps1),
                           i := length (command ?ps1) \<rparr>))"
    using Suc.hyps(2) Suc.prems(1) rest lt by (intro Suc.hyps(1)) simp_all
  then show ?case
    using step cd by (subst parseForm_loop.simps) simp
qed

text \<open>
  Where the code agrees with the specification: when the value about to be read opens with
  a double quote (or a backtick) and no double quote (backtick) character at all follows
  before the end of the input, the loop of parseForm returns: in complete mode in the
  \<open>Error\<close> state with the missing-quote (missing-tick) message, in autocomplete mode in
  the \<open>QuotedValue\<close> (\<open>TickValue\<close>) state, without error, with the characters after
  the opening delimiter in \<open>incomplete\<close> (backslashes dropped inside double quotes).
\<close>

lemma parseForm_loop_unterminated:
  assumes "state ps = StartValue"
    and "(charAt (command ps) (i ps) = DQUOTE \<and>
            CHR 0x22 \<notin> set (drop (i ps + 1) (command ps))) \<or>
         (charAt (command ps) (i ps) = BACKTICK \<and>
            CHR 0x60 \<notin> set (drop (i ps + 1) (command ps)))"
  shows "(\<exists>r. parseForm_loop False flds feu esc ps = Some r \<and> state r = Error \<and>
               error r = Some (if charAt (command ps) (i ps) = DQUOTE
                               then missing_quote else missing_tick)) \<and>
         (\<exists>r. parseForm_loop True flds feu esc ps = Some r \<and>
               state r = (if charAt (command ps) (i ps) = DQUOTE
                          then QuotedValue else TickValue) \<and>
               error r = error ps \<and> incompleteStart r = i ps \<and>
               incomplete r =
                 (if charAt (command ps) (i ps) = DQUOTE
                  then filter (\<lambda>ch. ch \<noteq> CHR 0x5C) (drop (i ps + 1) (command ps))
                  else drop (i ps + 1) (command ps)))"
proof -
  from assms(2) have ne: "charAt (command ps) (i ps) \<noteq> []" by auto
  then have lt: "i ps < length (command ps)" by (simp add: charAt_def split: if_splits)
  from assms(2) show ?thesis
  proof
    assume q: "charAt (command ps) (i ps) = DQUOTE \<and>
                 CHR 0x22 \<notin> set (drop (i ps + 1) (command ps))"
    let ?ps1 = "ps\<lparr> incomplete := [], incompleteStart := i ps, state := QuotedValue,
                      i := i ps + 1 \<rparr>"
    have step: "\<And>am. parseForm_step am flds feu esc ps = Next feu esc ?ps1"
      using assms(1) q by (simp add: parseForm_step_def)
    have loop: "\<And>am. parseForm_loop am flds feu esc ps = parseForm_loop am flds feu esc ?ps1"
      using step by (subst parseForm_loop.simps) simp
    have "\<And>am. parseForm_loop am flds feu esc ?ps1 =
           Some (if am
                 then ?ps1\<lparr> incomplete := incomplete ?ps1
                              @ filter (\<lambda>ch. ch \<noteq> CHR 0x5C) (drop (i ?ps1) (command ?ps1)),
                            i := length (command ?ps1) \<rparr>
                 else asError missing_quote
                        (?ps1\<lparr> incomplete := incomplete ?ps1
                              @ filter (\<lambda>ch. ch \<noteq> CHR 0x5C) (drop (i ?ps1) (command ?ps1)),
                             i := length (command ?ps1) \<rparr>))"
      using q lt by (intro quoted_scan) simp_all
    with loop q show ?thesis by (simp add: asError_def)
  next
    assume t: "charAt (command ps) (i ps) = BACKTICK \<and>
                 CHR 0x60 \<notin> set (drop (i ps + 1) (command ps))"
    let ?ps1 = "ps\<lparr> incomplete := [], incompleteStart := i ps, state := TickValue,
                      i := i ps + 1 \<rparr>"
    have step: "\<And>am. parseForm_step am flds feu esc ps = Next feu esc ?ps1"
      using assms(1) t by (simp add: parseForm_step_def)
    have loop: "\<And>am. parseForm_loop am flds feu esc ps = parseForm_loop am flds feu esc ?ps1"
      using step by (subst parseForm_loop.simps) simp
    have "\<And>am. parseForm_loop am flds feu esc ?ps1 =
           Some (if am
                 then ?ps1\<lparr> incomplete := incomplete ?ps1 @ drop (i ?ps1) (command ?ps1),
                            i := length (command ?ps1) \<rparr>
                 else asError missing_tick
                        (?ps1\<lparr> incomplete := incomplete ?ps1 @ drop (i ?ps1) (command ?ps1),
                             i := length (command ?ps1) \<rparr>))"
      using t lt by (intro tick_scan) simp_all
    with loop t show ?thesis by (simp add: asError_def)
  qed
qed

lemma parseForm_loop_unterminated_example:
  "state openQuoteParsed = StartValue \<and>
   charAt (command openQuoteParsed) (i openQuoteParsed) = DQUOTE \<and>
   CHR 0x22 \<notin> set (drop (i openQuoteParsed + 1) (command openQuoteParsed)) \<and>
   (\<exists>r. parseForm_loop False (form_fields exampleForm) False False openQuoteParsed = Some r \<and>
        state r = Error \<and> error r = Some missing_quote) \<and>
   (\<exists>r. parseForm_loop True (form_fields exampleForm) False False openQuoteParsed = Some r \<and>
        state r = QuotedValue \<and> error r = None \<and> incomplete r = ''abc'')"
  using parseForm_loop_unterminated [of openQuoteParsed "form_fields exampleForm" False False]
  by (auto simp: openQuoteParsed_def new_ParsedCommand_def charAt_def)

lemma unterminated_quote_run:
  "(case parseForm False
           (fst (matchBinding (exampleStore []) [exampleBinding ''cmd'' (Some exampleForm)] False
                   (new_ParsedCommand (''/cmd '' @ DQUOTE @ ''abc'')) exampleParser)) of
      None \<Rightarrow> False
    | Some r \<Rightarrow> state r = Error \<and> error r = Some missing_quote) \<and>
   (case parseForm True
           (fst (matchBinding (exampleStore []) [exampleBinding ''cmd'' (Some exampleForm)] True
                   (new_ParsedCommand (''/cmd '' @ DQUOTE @ ''abc'')) exampleParser)) of
      None \<Rightarrow> False
    | Some r \<Rightarrow> state r = QuotedValue \<and> error r = None \<and> incomplete r = ''abc'')"
  by code_simp

text \<open>
  The local \<^verbatim>\<open>escaped\<close> is set at a backslash and never read where a double quote is
  met: the quote after a backslash closes the value like any other.
\<close>

lemma escaped_quote_closes:
  assumes "state ps = QuotedValue" and "charAt (command ps) (i ps) = DQUOTE"
    and "incompleteStart ps + 1 \<noteq> i ps"
  shows "parseForm_step am flds feu True ps =
           Next feu True (ps\<lparr> i := i ps + 1, state := EndQuotedValue \<rparr>)"
  using assms by (simp add: parseForm_step_def)

text \<open>
  C4 fails on the code for a quoted value whose only later double quote is escaped by a
  backslash. The specification counts that quote as part of the value (quoted values
  support backslash-escaping of the delimiter), so in \<^verbatim>\<open>/cmd "abc\"\<close> the value opened
  by the first double quote is not closed before the end of the input. In complete mode
  parseForm nevertheless takes the escaped quote as the closing one: it returns in the state
  \<open>EndQuotedValue\<close> with no error and with \<^verbatim>\<open>abc\<close> recorded for the positional field,
  where the claim requires the \<open>Error\<close> state with the missing-quote message. (In
  autocomplete mode the same input returns without error, as claimed.)
\<close>

theorem parseForm_escaped_quote:
  "(case parseForm False
           (fst (matchBinding (exampleStore []) [exampleBinding ''cmd'' (Some exampleForm)] False
                   (new_ParsedCommand (''/cmd '' @ DQUOTE @ ''abc'' @ BACKSLASH @ DQUOTE))
                   exampleParser)) of
      None \<Rightarrow> False
    | Some r \<Rightarrow>
        state r = EndQuotedValue \<and> error r = None \<and> i r = length (command r) \<and>
        values r ''message'' = Some ''abc'') \<and>
   (case parseForm True
           (fst (matchBinding (exampleStore []) [exampleBinding ''cmd'' (Some exampleForm)] True
                   (new_ParsedCommand (''/cmd '' @ DQUOTE @ ''abc'' @ BACKSLASH @ DQUOTE))
                   exampleParser)) of
      None \<Rightarrow> False
    | Some r \<Rightarrow> state r = EndQuotedValue \<and> error r = None \<and> incomplete r = ''abc'')"
  by code_simp

section \<open>C3: quoted and ticked values\<close>


lemma empty_quote_runs:
  "(case parseForm False
           (fst (matchBinding (exampleStore []) [exampleBinding ''cmd'' (Some exampleForm)] False
                   (new_ParsedCommand (''/cmd '' @ DQUOTE @ DQUOTE)) exampleParser)) of
      None \<Rightarrow> False
    | Some r \<Rightarrow> state r = Error \<and> error r = Some empty_value) \<and>
   (case parseForm True
           (fst (matchBinding (exampleStore []) [exampleBinding ''cmd'' (Some exampleForm)] True
                   (new_ParsedCommand (''/cmd '' @ DQUOTE @ DQUOTE)) exampleParser)) of
      None \<Rightarrow> False
    | Some r \<Rightarrow> state r = Error \<and> error r = Some empty_value)"
  by code_simp



section \<open>C1: the optional value of a boolean flag\<close>

text \<open>An unquoted value is read up to the next space, tab or end of input.\<close>

lemma nonspace_scan:
  assumes "state ps = NonspaceValue"
  shows "parseForm_loop am flds feu esc ps =
           parseForm_loop am flds feu esc
             (ps\<lparr> incomplete := incomplete ps @ valueToken ps,
                  i := i ps + length (valueToken ps), state := EndValue \<rparr>)"
  using assms
proof (induction "length (command ps) - i ps" arbitrary: ps)
  case 0
  then have "valueToken ps = []" "charAt (command ps) (i ps) = []"
    by (simp_all add: valueToken_def charAt_def)
  moreover from this "0.prems"
  have "parseForm_step am flds feu esc ps = Next feu esc (ps\<lparr> state := EndValue \<rparr>)"
    by (simp add: parseForm_step_def)
  ultimately show ?case
    by (simp add: parseForm_loop_Next)
next
  case (Suc n)
  then have lt: "i ps < length (command ps)" by simp
  note cd = charAt_Suc_drop[OF lt]
  show ?case
  proof (cases "command ps ! i ps = CHR '' '' \<or> command ps ! i ps = CHR 0x09")
    case True
    with cd have "valueToken ps = []" by (auto simp: valueToken_def)
    moreover from True cd Suc.prems
    have "parseForm_step am flds feu esc ps = Next feu esc (ps\<lparr> state := EndValue \<rparr>)"
      by (auto simp: parseForm_step_def)
    ultimately show ?thesis by (simp add: parseForm_loop_Next)
  next
    case False
    let ?ps1 = "ps\<lparr> incomplete := incomplete ps @ [command ps ! i ps], i := i ps + 1 \<rparr>"
    from False cd have tok: "valueToken ps = command ps ! i ps # valueToken ?ps1"
      by (simp add: valueToken_def)
    from False cd Suc.prems
    have step: "parseForm_step am flds feu esc ps = Next feu esc ?ps1"
      by (simp add: parseForm_step_def)
    have "parseForm_loop am flds feu esc ?ps1 =
            parseForm_loop am flds feu esc
              (?ps1\<lparr> incomplete := incomplete ?ps1 @ valueToken ?ps1,
                     i := i ?ps1 + length (valueToken ?ps1), state := EndValue \<rparr>)"
      using Suc.hyps(2) Suc.prems lt by (intro Suc.hyps(1)) simp_all
    with parseForm_loop_Next[OF step] show ?thesis
      by (simp add: tok)
  qed
qed

lemma dash_not_boolean:
  "\<not> startsWith ''true'' (CHR ''-'' # rest) \<and> \<not> startsWith ''false'' (CHR ''-'' # rest) \<and>
   CHR ''-'' # rest \<noteq> ''true'' \<and> CHR ''-'' # rest \<noteq> ''false''"
  by (simp add: startsWith_def)

text \<open>
  What the code does establish: at the end of a value (unquoted, quoted or ticked) whose
  field is boolean, when the accumulated token is not \<^verbatim>\<open>true\<close> or \<^verbatim>\<open>false\<close>
  (complete mode), or not a prefix of one of them (autocomplete mode), the step of
  parseForm sets the cursor back to the start of the token, assigns \<^verbatim>\<open>true\<close> under the
  field's name and moves to \<open>StartParameter\<close>; the loop goes on from there and returns.
  The assignment records the string for every field name but \<^verbatim>\<open>__proto__\<close>. When the
  value of a boolean field would start with a dash, the loop continues in \<open>Flag1\<close> just
  after that dash: the token is read as the next flag, in both modes.
\<close>

lemma parseForm_step_boolean:
  assumes "state ps \<in> {EndValue, EndQuotedValue, EndTickedValue}"
    and "field ps = Some f" and "f_type f = BOOL"
    and "if autocompleteMode
         then \<not> startsWith ''true'' (incomplete ps) \<and> \<not> startsWith ''false'' (incomplete ps)
         else incomplete ps \<noteq> ''true'' \<and> incomplete ps \<noteq> ''false''"
  shows "parseForm_step autocompleteMode flds flagEqualsUsed escaped ps =
           Next flagEqualsUsed escaped
             (ps\<lparr> i := incompleteStart ps,
                  values := setProperty (values ps) (f_name f) ''true'',
                  state := StartParameter \<rparr>)"
    and "\<exists>r. parseForm_loop autocompleteMode flds flagEqualsUsed escaped ps = Some r \<and>
             parseForm_loop autocompleteMode flds flagEqualsUsed escaped
               (ps\<lparr> i := incompleteStart ps,
                    values := setProperty (values ps) (f_name f) ''true'',
                    state := StartParameter \<rparr>) = Some r"
    and "f_name f \<noteq> ''__proto__'' \<longrightarrow>
           setProperty (values ps) (f_name f) ''true'' (f_name f) = Some ''true''"
proof -
  have "parseForm_endValue autocompleteMode flagEqualsUsed escaped
               (charAt (command ps) (i ps)) ps =
             Next flagEqualsUsed escaped
               (ps\<lparr> i := incompleteStart ps,
                    values := setProperty (values ps) (f_name f) ''true'',
                    state := StartParameter \<rparr>)"
    using assms by (cases autocompleteMode) (simp_all add: parseForm_endValue_def)
  with assms(1) show step: "parseForm_step autocompleteMode flds flagEqualsUsed escaped ps =
        Next flagEqualsUsed escaped
          (ps\<lparr> i := incompleteStart ps,
               values := setProperty (values ps) (f_name f) ''true'',
               state := StartParameter \<rparr>)"
    by (auto simp: parseForm_step_def)
  from assms(1) have "parseFormState (state ps)" by (auto simp: parseFormState_def)
  from parseForm_loop_returns[OF this, of autocompleteMode flds flagEqualsUsed escaped]
  obtain r where r: "parseForm_loop autocompleteMode flds flagEqualsUsed escaped ps = Some r"
    by blast
  with parseForm_loop_Next[OF step]
  have "parseForm_loop autocompleteMode flds flagEqualsUsed escaped
               (ps\<lparr> i := incompleteStart ps,
                    values := setProperty (values ps) (f_name f) ''true'',
                    state := StartParameter \<rparr>) = Some r"
    by simp
  with r
  show "\<exists>r. parseForm_loop autocompleteMode flds flagEqualsUsed escaped ps = Some r \<and>
             parseForm_loop autocompleteMode flds flagEqualsUsed escaped
               (ps\<lparr> i := incompleteStart ps,
                    values := setProperty (values ps) (f_name f) ''true'',
                    state := StartParameter \<rparr>) = Some r"
    by blast
  show "f_name f \<noteq> ''__proto__'' \<longrightarrow>
           setProperty (values ps) (f_name f) ''true'' (f_name f) = Some ''true''"
    by (simp add: setProperty_def)
qed

lemma parseForm_loop_boolean_dash:
  assumes "state ps = StartValue" and "field ps = Some f" and "f_type f = BOOL"
    and "charAt (command ps) (i ps) = ''-''"
  shows "\<exists>r. parseForm_loop autocompleteMode flds flagEqualsUsed escaped ps = Some r \<and>
             parseForm_loop autocompleteMode flds flagEqualsUsed escaped
               (ps\<lparr> incomplete := valueToken ps, incompleteStart := i ps,
                    values := setProperty (values ps) (f_name f) ''true'',
                    state := Flag1, i := i ps + 1 \<rparr>) = Some r"
proof -
  from assms(4) have lt: "i ps < length (command ps)" by (auto simp: charAt_def split: if_splits)
  note cd = charAt_Suc_drop[OF lt]
  from assms(4) cd have dash: "command ps ! i ps = CHR ''-''" by simp
  obtain rest where tok: "valueToken ps = CHR ''-'' # rest"
    using cd dash by (simp add: valueToken_def)
  let ?ps1 = "ps\<lparr> incomplete := [], incompleteStart := i ps, state := NonspaceValue \<rparr>"
  let ?ps2 = "ps\<lparr> incomplete := valueToken ps, incompleteStart := i ps,
                   i := i ps + length (valueToken ps), state := EndValue \<rparr>"
  let ?ps3 = "ps\<lparr> incomplete := valueToken ps, incompleteStart := i ps,
                   values := setProperty (values ps) (f_name f) ''true'',
                   state := StartParameter \<rparr>"
  let ?ps4 = "ps\<lparr> incomplete := valueToken ps, incompleteStart := i ps,
                   values := setProperty (values ps) (f_name f) ''true'', state := Flag1,
                   i := i ps + 1 \<rparr>"
  have s1: "parseForm_step autocompleteMode flds flagEqualsUsed escaped ps
              = Next flagEqualsUsed escaped ?ps1"
    using assms by (simp add: parseForm_step_def)
  have l2: "parseForm_loop autocompleteMode flds flagEqualsUsed escaped ?ps1
              = parseForm_loop autocompleteMode flds flagEqualsUsed escaped ?ps2"
    using nonspace_scan[of ?ps1 autocompleteMode flds flagEqualsUsed escaped]
    by (cases ps) (simp add: valueToken_def)
  have "parseForm_endValue autocompleteMode flagEqualsUsed escaped
          (charAt (command ?ps2) (i ?ps2)) ?ps2 = Next flagEqualsUsed escaped ?ps3"
    using assms dash_not_boolean[of rest]
    by (cases autocompleteMode) (simp_all add: parseForm_endValue_def tok)
  then have s3: "parseForm_step autocompleteMode flds flagEqualsUsed escaped ?ps2
              = Next flagEqualsUsed escaped ?ps3"
    by (simp add: parseForm_step_def)
  have s4: "parseForm_step autocompleteMode flds flagEqualsUsed escaped ?ps3
              = Next flagEqualsUsed escaped ?ps4"
    using assms by (simp add: parseForm_step_def)
  have eq: "parseForm_loop autocompleteMode flds flagEqualsUsed escaped ps =
        parseForm_loop autocompleteMode flds flagEqualsUsed escaped ?ps4"
    using parseForm_loop_Next[OF s1] l2 parseForm_loop_Next[OF s3] parseForm_loop_Next[OF s4]
    by simp
  from assms(1) have "parseFormState (state ps)" by (simp add: parseFormState_def)
  from parseForm_loop_returns[OF this, of autocompleteMode flds flagEqualsUsed escaped]
  obtain r where r: "parseForm_loop autocompleteMode flds flagEqualsUsed escaped ps = Some r"
    by blast
  with eq have "parseForm_loop autocompleteMode flds flagEqualsUsed escaped ?ps4 = Some r"
    by simp
  with r show ?thesis by blast
qed

text \<open>
  The example of the specification, with the boolean field named \<^verbatim>\<open>done\<close>:
  \<^verbatim>\<open>--done\<close> binds to \<^verbatim>\<open>true\<close> and \<^verbatim>\<open>--user\<close> is read as the next flag.
\<close>

lemma boolean_lookahead_run:
  "(case parseForm False
           (fst (matchBinding (exampleStore []) [exampleBinding ''cmd'' (Some exampleForm)] False
                   (new_ParsedCommand ''/cmd --done --user bob'') exampleParser)) of
      None \<Rightarrow> False
    | Some r \<Rightarrow>
        state r \<noteq> Error \<and> values r ''done'' = Some ''true'' \<and>
        values r ''user'' = Some ''bob'') \<and>
   (case parseForm True
           (fst (matchBinding (exampleStore []) [exampleBinding ''cmd'' (Some exampleForm)] True
                   (new_ParsedCommand ''/cmd --done --user bob '') exampleParser)) of
      None \<Rightarrow> False
    | Some r \<Rightarrow>
        state r \<noteq> Error \<and> values r ''done'' = Some ''true'' \<and>
        values r ''user'' = Some ''bob'')"
  by code_simp

text \<open>
  C1 fails on the code for a boolean field named \<^verbatim>\<open>__proto__\<close>. In the form below the
  flag \<^verbatim>\<open>--done\<close> is that field. For \<^verbatim>\<open>/cmd --done --user bob\<close> the parse resets the
  cursor and reads \<^verbatim>\<open>--user bob\<close> as the next flag, in both modes, and does not end in
  \<open>Error\<close>; but the assignment \<^verbatim>\<open>this.values[this.field.name] = 'true'\<close> on the plain
  object is ignored under that name: the values map has no entry for the boolean field,
  and a read of it gives the prototype object and not the string \<^verbatim>\<open>true\<close>.
\<close>

theorem parseForm_boolean_proto:
  "(case parseForm False
           (fst (matchBinding (exampleStore []) [exampleBinding ''cmd'' (Some protoForm)] False
                   (new_ParsedCommand ''/cmd --done --user bob'') exampleParser)) of
      None \<Rightarrow> False
    | Some r \<Rightarrow>
        state r = EndValue \<and> error r = None \<and>
        map_option f_name (field r) = Some ''user'' \<and> values r ''user'' = Some ''bob'' \<and>
        values r ''__proto__'' = None \<and> values r ''done'' = None \<and>
        getProperty (values r) ''__proto__'' = Some (Member ''__proto__'')) \<and>
   (case parseForm True
           (fst (matchBinding (exampleStore []) [exampleBinding ''cmd'' (Some protoForm)] True
                   (new_ParsedCommand ''/cmd --done --user bob '') exampleParser)) of
      None \<Rightarrow> False
    | Some r \<Rightarrow>
        state r \<noteq> Error \<and> values r ''user'' = Some ''bob'' \<and>
        values r ''__proto__'' = None \<and> values r ''done'' = None \<and>
        getProperty (values r) ''__proto__'' = Some (Member ''__proto__''))"
  by code_simp

section \<open>C2: a token that matches no sub-command\<close>

text \<open>
  A command token is read up to the next space, tab or end of input; in autocomplete mode
  the end of the input does not end the token.
\<close>

lemma command_scan:
  assumes "state ps = Command"
    and "\<not> am \<or> i ps + length (valueToken ps) < length (command ps)"
  shows "matchBinding_loop am bs ps =
           matchBinding_loop am bs
             (ps\<lparr> incomplete := incomplete ps @ valueToken ps,
                  i := i ps + length (valueToken ps), state := EndCommand \<rparr>)"
  using assms
proof (induction "length (command ps) - i ps" arbitrary: ps)
  case 0
  then have "valueToken ps = []" "charAt (command ps) (i ps) = []" "\<not> am"
    by (auto simp: valueToken_def charAt_def)
  moreover from this "0.prems"(1)
  have "matchBinding_step am bs ps = Again bs (ps\<lparr> state := EndCommand \<rparr>)"
    by (simp add: matchBinding_step_def)
  ultimately show ?case
    by (simp add: matchBinding_loop_Again)
next
  case (Suc n)
  then have lt: "i ps < length (command ps)" by simp
  note cd = charAt_Suc_drop[OF lt]
  show ?case
  proof (cases "command ps ! i ps = CHR '' '' \<or> command ps ! i ps = CHR 0x09")
    case True
    with cd have "valueToken ps = []" by (auto simp: valueToken_def)
    moreover from True cd Suc.prems(1)
    have "matchBinding_step am bs ps = Again bs (ps\<lparr> state := EndCommand \<rparr>)"
      by (auto simp: matchBinding_step_def)
    ultimately show ?thesis by (simp add: matchBinding_loop_Again)
  next
    case False
    let ?ps1 = "ps\<lparr> incomplete := incomplete ps @ [command ps ! i ps], i := i ps + 1 \<rparr>"
    from False cd have tok: "valueToken ps = command ps ! i ps # valueToken ?ps1"
      by (simp add: valueToken_def)
    from False cd Suc.prems(1)
    have step: "matchBinding_step am bs ps = Again bs ?ps1"
      by (simp add: matchBinding_step_def)
    have "matchBinding_loop am bs ?ps1 =
            matchBinding_loop am bs
              (?ps1\<lparr> incomplete := incomplete ?ps1 @ valueToken ?ps1,
                     i := i ?ps1 + length (valueToken ?ps1), state := EndCommand \<rparr>)"
      using Suc.hyps(2) Suc.prems lt tok by (intro Suc.hyps(1)) auto
    with matchBinding_loop_Again[OF step] show ?thesis
      by (simp add: tok)
  qed
qed

lemma matchBinding_step_Again:
  assumes "matchBinding_step am bs ps = Again bs1 ps1"
  shows "error ps1 = error ps \<and> command ps1 = command ps"
  using assms
  by (cases "state ps")
     (auto simp: matchBinding_step_def Let_def split: if_splits option.splits)

lemma matchBinding_step_Finished:
  assumes "matchBinding_step am bs ps = Finished ps1"
  shows "error ps1 = error ps \<and> command ps1 = command ps \<and> binding ps1 = binding ps \<and>
         state ps1 \<in> {Command, EndCommand}"
  using assms
  by (cases "state ps")
     (auto simp: matchBinding_step_def Let_def split: if_splits option.splits)

lemma matchBinding_step_Failed:
  assumes "matchBinding_step am bs ps = Failed failed"
  shows "state failed = Error \<and> (\<forall>c. error failed \<noteq> Some (no_match c))"
  using assms
  by (cases "state ps")
     (auto simp: matchBinding_step_def Let_def asError_def split: if_splits option.splits)

lemma matchBinding_loop_result:
  "(matchBinding_loop am bs ps = Inr ps1 \<longrightarrow>
      error ps1 = error ps \<and> command ps1 = command ps \<and> state ps1 \<in> {Command, EndCommand}) \<and>
   (matchBinding_loop am bs ps = Inl failed \<longrightarrow>
      state failed = Error \<and> (\<forall>c. error failed \<noteq> Some (no_match c)))"
proof (induction am bs ps rule: matchBinding_loop.induct)
  case (1 am bs ps)
  show ?case
  proof (cases "matchBinding_step am bs ps")
    case (Failed f)
    from matchBinding_step_Failed[OF this] matchBinding_loop_Failed[OF Failed]
    show ?thesis by auto
  next
    case (Finished p)
    from matchBinding_step_Finished[OF this] matchBinding_loop_Finished[OF Finished]
    show ?thesis by auto
  next
    case (Again bs1 p1)
    from "1.IH"[OF this] matchBinding_step_Again[OF Again] matchBinding_loop_Again[OF Again]
    show ?thesis by simp
  qed
qed


lemma matchBinding_step_walk:
  assumes "state ps \<in> {Command, EndCommand, CommandSeparator}"
  shows "(\<exists>ps1. matchBinding_step am bs ps = Finished ps1) \<or>
         (\<exists>bs1 ps1. matchBinding_step am bs ps = Again bs1 ps1 \<and>
            state ps1 \<in> {Command, EndCommand, CommandSeparator})"
  using assms
  by (auto simp: matchBinding_step_def Let_def split: option.splits)

lemma matchBinding_loop_walk:
  assumes "state ps \<in> {Command, EndCommand, CommandSeparator}"
  shows "\<exists>ps1. matchBinding_loop am bs ps = Inr ps1"
  using assms
proof (induction am bs ps rule: matchBinding_loop.induct)
  case (1 am bs ps)
  from matchBinding_step_walk[OF "1.prems", of am bs]
  show ?case
  proof (elim disjE exE conjE)
    fix ps1 assume "matchBinding_step am bs ps = Finished ps1"
    then show ?thesis by (simp add: matchBinding_loop_Finished)
  next
    fix bs1 ps1
    assume a: "matchBinding_step am bs ps = Again bs1 ps1"
      and w: "state ps1 \<in> {Command, EndCommand, CommandSeparator}"
    from "1.IH"[OF a w] matchBinding_loop_Again[OF a] show ?thesis by simp
  qed
qed

lemma matchBinding_loop_slash:
  assumes "startsWith cmd ''/''"
  shows "\<exists>ps1. matchBinding_loop am bs (new_ParsedCommand cmd) = Inr ps1"
proof -
  let ?ps1 = "(new_ParsedCommand cmd)\<lparr> i := 1, incomplete := [], incompleteStart := 1,
                                         state := Command \<rparr>"
  have "charAt cmd 0 = ''/''"
    using assms by (simp add: charAt_0 startsWith_def)
  then have "matchBinding_step am bs (new_ParsedCommand cmd) = Again bs ?ps1"
    by (simp add: matchBinding_step_def new_ParsedCommand_def)
  from matchBinding_loop_Again[OF this] matchBinding_loop_walk[of ?ps1 am bs]
  show ?thesis by simp
qed

lemma matchBinding_after_loop:
  assumes "bs \<noteq> []" and "matchBinding_loop am bs ps = Inr ps1"
  shows "(binding ps1 = None \<longrightarrow>
            fst (matchBinding store bs am ps parser) = asError (no_match (command ps)) ps1) \<and>
         (\<forall>b. binding ps1 = Some b \<longrightarrow>
            binding (fst (matchBinding store bs am ps parser)) = Some b \<and>
            (error (fst (matchBinding store bs am ps parser)) = error ps \<or>
             (\<exists>e. error (fst (matchBinding store bs am ps parser)) = Some (form_error e))))"
proof -
  from matchBinding_loop_result[of am bs ps ps1] assms(2)
  have r: "error ps1 = error ps" "command ps1 = command ps" by simp_all
  show ?thesis
    using assms r
    by (auto simp: matchBinding_def asError_def Let_def split: option.splits prod.splits)
qed

text \<open>
  C2, as stated, fails for an input that does not start with a slash: no binding is ever
  matched, and the error is ``must start with /'', not ``no matching command''.
\<close>

theorem matchBinding_no_slash_no_match:
  "[exampleBinding ''cmd'' (Some exampleForm)] \<noteq> [] \<and>
   binding (fst (matchBinding (exampleStore []) [exampleBinding ''cmd'' (Some exampleForm)] False
                   (new_ParsedCommand ''cmd arg'') exampleParser)) = None \<and>
   state (fst (matchBinding (exampleStore []) [exampleBinding ''cmd'' (Some exampleForm)] False
                 (new_ParsedCommand ''cmd arg'') exampleParser)) = Error \<and>
   error (fst (matchBinding (exampleStore []) [exampleBinding ''cmd'' (Some exampleForm)] False
                 (new_ParsedCommand ''cmd arg'') exampleParser)) \<noteq> Some (no_match ''cmd arg'')"
  by code_simp

text \<open>
  C2 (amended): when the walk reads a whitespace-delimited token (in complete mode also a
  token that ends the input) that equals, ignoring case, no label of the current candidate
  bindings, the loop is left in the \<open>EndCommand\<close> state, not through an error: the
  binding matched so far, the error field and the start offset of the token are as before.
  For a non-empty binding list and an input that starts with a slash, \<open>matchBinding\<close>
  returns the ``no matching command'' error exactly when no binding was matched; for every
  other input it does not return that error.
\<close>

theorem matchBinding_unmatched_token:
  "(state ps = Command \<and>
    (\<not> autocompleteMode \<or> i ps + length (valueToken ps) < length (command ps)) \<and>
    find (\<lambda>b. toLowerCase (b_label b) = toLowerCase (incomplete ps @ valueToken ps)) bnds = None
    \<longrightarrow>
      matchBinding_loop autocompleteMode bnds ps =
        Inr (ps\<lparr> incomplete := incomplete ps @ valueToken ps,
                 i := i ps + length (valueToken ps), state := EndCommand \<rparr>)) \<and>
   (commandBindings \<noteq> [] \<and> startsWith cmd ''/'' \<longrightarrow>
      (error (fst (matchBinding store commandBindings autocompleteMode
                     (new_ParsedCommand cmd) parser)) = Some (no_match cmd)
       \<longleftrightarrow> binding (fst (matchBinding store commandBindings autocompleteMode
                            (new_ParsedCommand cmd) parser)) = None) \<and>
      (binding (fst (matchBinding store commandBindings autocompleteMode
                       (new_ParsedCommand cmd) parser)) = None
       \<longleftrightarrow> (\<exists>ps1. matchBinding_loop autocompleteMode commandBindings (new_ParsedCommand cmd)
                        = Inr ps1 \<and> binding ps1 = None))) \<and>
   (error (fst (matchBinding store commandBindings autocompleteMode
                  (new_ParsedCommand cmd) parser)) = Some (no_match cmd)
    \<longrightarrow> commandBindings \<noteq> [] \<and> startsWith cmd ''/'')"
proof (intro conjI impI)
  assume a: "state ps = Command \<and>
    (\<not> autocompleteMode \<or> i ps + length (valueToken ps) < length (command ps)) \<and>
    find (\<lambda>b. toLowerCase (b_label b) = toLowerCase (incomplete ps @ valueToken ps)) bnds = None"
  let ?ps1 = "ps\<lparr> incomplete := incomplete ps @ valueToken ps,
                   i := i ps + length (valueToken ps), state := EndCommand \<rparr>"
  from a have "matchBinding_loop autocompleteMode bnds ps
                 = matchBinding_loop autocompleteMode bnds ?ps1"
    by (intro command_scan) simp_all
  moreover from a have "matchBinding_step autocompleteMode bnds ?ps1 = Finished ?ps1"
    by (simp add: matchBinding_step_def)
  ultimately show "matchBinding_loop autocompleteMode bnds ps = Inr ?ps1"
    by (simp add: matchBinding_loop_Finished)
next
  let ?R = "fst (matchBinding store commandBindings autocompleteMode (new_ParsedCommand cmd)
                   parser)"
  assume a: "commandBindings \<noteq> [] \<and> startsWith cmd ''/''"
  from matchBinding_loop_slash[of cmd autocompleteMode commandBindings] a
  obtain ps1 where l: "matchBinding_loop autocompleteMode commandBindings (new_ParsedCommand cmd)
                         = Inr ps1" by blast
  from matchBinding_after_loop[OF _ l, of store parser] a
  have after: "binding ps1 = None \<longrightarrow> ?R = asError (no_match cmd) ps1"
    "\<forall>b. binding ps1 = Some b \<longrightarrow>
       binding ?R = Some b \<and> (error ?R = None \<or> (\<exists>e. error ?R = Some (form_error e)))"
    by (simp_all add: new_ParsedCommand_def)
  show "error ?R = Some (no_match cmd) \<longleftrightarrow> binding ?R = None"
    using after by (cases "binding ps1") (auto simp: asError_def)
  show "binding ?R = None \<longleftrightarrow>
          (\<exists>ps1. matchBinding_loop autocompleteMode commandBindings (new_ParsedCommand cmd)
                   = Inr ps1 \<and> binding ps1 = None)"
    using after l by (cases "binding ps1") (auto simp: asError_def)
next
  let ?R = "fst (matchBinding store commandBindings autocompleteMode (new_ParsedCommand cmd)
                   parser)"
  assume e: "error ?R = Some (no_match cmd)"
  show "commandBindings \<noteq> []"
    using e by (auto simp: matchBinding_def asError_def)
  show "startsWith cmd ''/''"
  proof (rule ccontr)
    assume "\<not> startsWith cmd ''/''"
    then have "charAt cmd 0 \<noteq> ''/''" by (simp add: charAt_0 startsWith_def)
    then have "matchBinding_step autocompleteMode commandBindings (new_ParsedCommand cmd)
                 = Failed (asError no_slash_start (new_ParsedCommand cmd))"
      by (simp add: matchBinding_step_def new_ParsedCommand_def)
    from matchBinding_loop_Failed[OF this] e \<open>commandBindings \<noteq> []\<close> show False
      by (simp add: matchBinding_def asError_def)
  qed
qed

lemma unmatched_token_runs:
  "binding (fst (matchBinding (exampleStore []) [exampleBinding ''cmd'' (Some exampleForm)] False
                   (new_ParsedCommand ''/zzz arg'') exampleParser)) = None \<and>
   binding (fst (matchBinding (exampleStore []) [exampleBinding ''cmd'' (Some exampleForm)] False
                   (new_ParsedCommand ''/cmd zzz arg'') exampleParser))
     = Some (exampleBinding ''cmd'' (Some exampleForm)) \<and>
   state (fst (matchBinding (exampleStore []) [exampleBinding ''cmd'' (Some exampleForm)] False
                 (new_ParsedCommand ''/cmd zzz arg'') exampleParser)) = EndCommand \<and>
   incompleteStart
     (fst (matchBinding (exampleStore []) [exampleBinding ''cmd'' (Some exampleForm)] False
             (new_ParsedCommand ''/cmd zzz arg'') exampleParser)) = 5"
  by code_simp

theorem matchBinding_unmatched_token_witness:
  "state unmatchedTokenParsed = Command \<and> valueToken unmatchedTokenParsed = ''zzz'' \<and>
   matchBinding_loop False [] unmatchedTokenParsed =
     Inr (unmatchedTokenParsed\<lparr> incomplete := ''zzz'', i := 8, state := EndCommand \<rparr>) \<and>
   startsWith ''/zzz arg'' ''/'' \<and>
   error (fst (matchBinding (exampleStore []) [exampleBinding ''cmd'' (Some exampleForm)] False
                 (new_ParsedCommand ''/zzz arg'') exampleParser)) = Some (no_match ''/zzz arg'') \<and>
   error (fst (matchBinding (exampleStore []) [exampleBinding ''cmd'' (Some exampleForm)] False
                 (new_ParsedCommand ''/cmd zzz arg'') exampleParser))
     \<noteq> Some (no_match ''/cmd zzz arg'')"
  using matchBinding_unmatched_token
          [of unmatchedTokenParsed False "[]" "[exampleBinding ''cmd'' (Some exampleForm)]"
              "''/zzz arg''" "exampleStore []" exampleParser]
        matchBinding_unmatched_token
          [of unmatchedTokenParsed False "[]" "[exampleBinding ''cmd'' (Some exampleForm)]"
              "''/cmd zzz arg''" "exampleStore []" exampleParser]
        unmatched_token_runs
  by (simp add: unmatchedTokenParsed_def new_ParsedCommand_def valueToken_def startsWith_def)

end
